theory Spec2Isabelle
  imports Complex_Main "HOL-Library.List_Lexorder" "HOL-Library.Option_ord"
    "HOL-Library.Multiset"
begin

section \<open>Values\<close>

text \<open>
  Strings (JavaScript strings and SQLite TEXT values) are lists of Unicode code points.
  SQLite compares TEXT with the BINARY collation, that is by the UTF-8 bytes, which is the
  lexicographic order of the code points. A JavaScript value that may be \<open>undefined\<close>
  and a column that may be NULL are options. A REAL column holds a real number, the
  value of a double; the infinities are left out. The NaN that
  \<open>parseFloat\<close> returns for an unparseable cell is bound as NULL, and so is a
  parameter that is \<open>undefined\<close>.
\<close>

type_synonym ustring = "nat list"

definition str :: "string \<Rightarrow> ustring" where
  "str s = map of_char s"

text \<open>Truthiness of a string-or-undefined value: \<open>undefined\<close> and \<open>''\<close> are falsy.\<close>

definition truthy :: "ustring option \<Rightarrow> bool" where
  "truthy v = (case v of None \<Rightarrow> False | Some s \<Rightarrow> s \<noteq> [])"

text \<open>The characters \<open>String.prototype.trim\<close> removes: WhiteSpace and LineTerminator.\<close>

definition is_white_space :: "nat \<Rightarrow> bool" where
  "is_white_space c \<longleftrightarrow>
     c \<in> set [9, 10, 11, 12, 13, 32, 160, 5760, 8232, 8233, 8239, 8287, 12288, 65279]
     \<or> (8192 \<le> c \<and> c \<le> 8202)"

definition trim :: "ustring \<Rightarrow> ustring" where
  "trim s = rev (dropWhile is_white_space (rev (dropWhile is_white_space s)))"

text \<open>\<open>val.toString().replace\<close> of a leading U+FEFF by the empty string.\<close>

definition strip_bom :: "ustring \<Rightarrow> ustring" where
  "strip_bom s = (case s of [] \<Rightarrow> [] | c # cs \<Rightarrow> if c = 65279 then cs else s)"

text \<open>
  \<open>parseFloat\<close> is a parameter \<open>pf\<close> of the load: \<open>None\<close> is NaN. Applied to
  \<open>undefined\<close> it is NaN.
\<close>

definition parseFloat :: "(ustring \<Rightarrow> real option) \<Rightarrow> ustring option \<Rightarrow> real option" where
  "parseFloat pf v = (case v of None \<Rightarrow> None | Some s \<Rightarrow> pf s)"

section \<open>The store\<close>

record metadata_row =
  m_cpe :: ustring
  m_lat :: "real option"
  m_lon :: "real option"
  m_totalarea :: "real option"
  m_name :: "ustring option"
  m_fulladdress :: "ustring option"

record smart_meter_row =
  smd_id :: nat
  smd_cpe :: "ustring option"
  smd_timestamp :: "ustring option"
  smd_active_energy :: "real option"

record breakdown_values =
  renewable_biomass :: "real option"
  renewable_hydro :: "real option"
  renewable_solar :: "real option"
  renewable_wind :: "real option"
  renewable_geothermal :: "real option"
  renewable_otherrenewable :: "real option"
  renewable :: "real option"
  nonrenewable_coal :: "real option"
  nonrenewable_gas :: "real option"
  nonrenewable_nuclear :: "real option"
  nonrenewable_oil :: "real option"
  nonrenewable :: "real option"
  hydropumpedstorage :: "real option"
  unknown :: "real option"

record energy_breakdown_row =
  eb_id :: nat
  eb_timestamp :: "ustring option"
  eb_values :: breakdown_values

text \<open>
  The three tables, each in rowid order, and for the two AUTOINCREMENT tables the largest
  id ever given (SQLite keeps it in \<open>sqlite_sequence\<close>; a DELETE does not reset it).
\<close>

record db =
  metadata :: "metadata_row list"
  smart_meter_data :: "smart_meter_row list"
  smart_meter_seq :: nat
  energy_breakdown :: "energy_breakdown_row list"
  energy_breakdown_seq :: nat

text \<open>\<open>INSERT OR REPLACE INTO metadata\<close>: the row with the same primary key is deleted.\<close>

definition insert_or_replace :: "metadata_row \<Rightarrow> db \<Rightarrow> db" where
  "insert_or_replace r d =
     d\<lparr>metadata := filter (\<lambda>x. m_cpe x \<noteq> m_cpe r) (metadata d) @ [r]\<rparr>"

text \<open>The id AUTOINCREMENT gives: one more than the largest id that ever was in the table.\<close>

definition next_id :: "nat \<Rightarrow> nat list \<Rightarrow> nat" where
  "next_id seq ids = Suc (fold max ids seq)"

definition insert_smart_meter :: "ustring option \<times> ustring option \<times> real option \<Rightarrow> db \<Rightarrow> db" where
  "insert_smart_meter v d =
     (let i = next_id (smart_meter_seq d) (map smd_id (smart_meter_data d))
      in d\<lparr>smart_meter_data := smart_meter_data d @
              [\<lparr>smd_id = i, smd_cpe = fst v, smd_timestamp = fst (snd v),
                smd_active_energy = snd (snd v)\<rparr>],
            smart_meter_seq := i\<rparr>)"

definition insert_breakdown :: "ustring option \<times> breakdown_values \<Rightarrow> db \<Rightarrow> db" where
  "insert_breakdown v d =
     (let i = next_id (energy_breakdown_seq d) (map eb_id (energy_breakdown d))
      in d\<lparr>energy_breakdown := energy_breakdown d @
              [\<lparr>eb_id = i, eb_timestamp = fst v, eb_values = snd v\<rparr>],
            energy_breakdown_seq := i\<rparr>)"

section \<open>The statements of a load\<close>

text \<open>
  \<open>loadCSVData\<close> awaits none of the statements it sends to the store. The model keeps
  apart the statements the function issues, in the order it issues them, and the order
  in which the store runs them.
\<close>

datatype statement =
    Delete_from_smart_meter_data
  | Delete_from_energy_breakdown
  | Delete_from_metadata
  | Insert_or_replace_metadata metadata_row
  | Insert_smart_meter_data "ustring option \<times> ustring option \<times> real option"
  | Insert_energy_breakdown "ustring option \<times> breakdown_values"

definition run :: "statement \<Rightarrow> db \<Rightarrow> db" where
  "run s d =
     (case s of
        Delete_from_smart_meter_data \<Rightarrow> d\<lparr>smart_meter_data := []\<rparr>
      | Delete_from_energy_breakdown \<Rightarrow> d\<lparr>energy_breakdown := []\<rparr>
      | Delete_from_metadata \<Rightarrow> d\<lparr>metadata := []\<rparr>
      | Insert_or_replace_metadata r \<Rightarrow> insert_or_replace r d
      | Insert_smart_meter_data v \<Rightarrow> insert_smart_meter v d
      | Insert_energy_breakdown v \<Rightarrow> insert_breakdown v d)"

definition on_metadata :: "statement \<Rightarrow> bool" where
  "on_metadata s =
     (case s of Delete_from_metadata \<Rightarrow> True | Insert_or_replace_metadata r \<Rightarrow> True | _ \<Rightarrow> False)"

text \<open>
  The orders in which the store may run the statements a load has issued. The three
  deletes and the inserts of the meter readings and of the breakdown are sent outside
  \<open>db.serialize\<close>, each insert as a statement of its own: they run in any order. The
  inserts of the metadata are sent inside \<open>db.serialize\<close>: they run after the delete
  of the metadata, which was issued before them, and one after the other.
\<close>

definition schedule :: "statement list \<Rightarrow> statement list \<Rightarrow> bool" where
  "schedule issued sched \<longleftrightarrow>
     mset sched = mset issued \<and> filter on_metadata sched = filter on_metadata issued"

section \<open>loadCSVData\<close>

text \<open>
  A source file is \<open>None\<close> when it does not exist. The metadata file is read with
  \<open>headers: false\<close>: each \<open>data\<close> event is the list of the cells of a line. The other two
  files are read with the parser's own header handling: each \<open>data\<close> event is an object
  from column names to cells.
\<close>

type_synonym js_object = "ustring \<rightharpoonup> ustring"

record sources =
  metadata_csv :: "ustring list list option"
  smart_meter_csv :: "js_object list option"
  breakdown_csv :: "js_object list option"

subsection \<open>Metadata\<close>

record metadata_parse =
  isFirstRow :: bool
  headers :: "ustring list"
  parsed :: "js_object list"

text \<open>\<open>headers[index]\<close> beyond the header row is \<open>undefined\<close>, the property name "undefined".\<close>

definition header_at :: "ustring list \<Rightarrow> nat \<Rightarrow> ustring" where
  "header_at hs i = (if i < length hs then hs ! i else str ''undefined'')"

definition dataRow :: "ustring list \<Rightarrow> ustring list \<Rightarrow> js_object" where
  "dataRow hs row =
     fold (\<lambda>(index, v) obj. obj(header_at hs index \<mapsto> v)) (enumerate 0 row) Map.empty"

definition metadata_on_data :: "ustring list \<Rightarrow> metadata_parse \<Rightarrow> metadata_parse" where
  "metadata_on_data row st =
     (if isFirstRow st
      then st\<lparr>headers := map (\<lambda>v. trim (strip_bom v)) row, isFirstRow := False\<rparr>
      else st\<lparr>parsed := parsed st @ [dataRow (headers st) row]\<rparr>)"

definition metadata_values :: "(ustring \<Rightarrow> real option) \<Rightarrow> js_object \<Rightarrow> ustring \<Rightarrow> metadata_row" where
  "metadata_values pf row c =
     \<lparr>m_cpe = trim c,
      m_lat = parseFloat pf (row (str ''lat'')),
      m_lon = parseFloat pf (row (str ''lon'')),
      m_totalarea = parseFloat pf (row (str ''totalarea'')),
      m_name = row (str ''name''),
      m_fulladdress = row (str ''fulladdress'')\<rparr>"

text \<open>The body of the \<open>forEach\<close> of the \<open>end\<close> handler: the statements it issues for a row.\<close>

definition metadata_insert :: "(ustring \<Rightarrow> real option) \<Rightarrow> js_object \<Rightarrow> statement list" where
  "metadata_insert pf row =
     (case row (str ''cpe'') of
        None \<Rightarrow> []
      | Some c \<Rightarrow>
          if c \<noteq> [] \<and> trim c \<noteq> []
          then [Insert_or_replace_metadata (metadata_values pf row c)]
          else [])"

definition metadata_on_end :: "(ustring \<Rightarrow> real option) \<Rightarrow> metadata_parse \<Rightarrow> statement list" where
  "metadata_on_end pf st = concat (map (metadata_insert pf) (parsed st))"

text \<open>The state of the \<open>data\<close> handler when the stream ends.\<close>

definition metadata_stream :: "ustring list list \<Rightarrow> metadata_parse" where
  "metadata_stream lines =
     fold metadata_on_data lines \<lparr>isFirstRow = True, headers = [], parsed = []\<rparr>"

definition load_metadata :: "(ustring \<Rightarrow> real option) \<Rightarrow> ustring list list option \<Rightarrow> statement list" where
  "load_metadata pf file =
     (case file of
        None \<Rightarrow> []
      | Some lines \<Rightarrow> metadata_on_end pf (metadata_stream lines))"

subsection \<open>Meter readings\<close>

definition maxRecords_smart_meter :: nat where
  "maxRecords_smart_meter = 10000"

definition smart_meter_values ::
  "(ustring \<Rightarrow> real option) \<Rightarrow> js_object \<Rightarrow> ustring option \<times> ustring option \<times> real option" where
  "smart_meter_values pf row =
     (row (str ''cpe''), row (str ''timestamp''), parseFloat pf (row (str ''active_energy'')))"

text \<open>The \<open>data\<close> handler: the counter and the statements issued so far.\<close>

definition smart_meter_on_data ::
  "(ustring \<Rightarrow> real option) \<Rightarrow> js_object \<Rightarrow> nat \<times> statement list \<Rightarrow> nat \<times> statement list" where
  "smart_meter_on_data pf row st =
     (case st of (count', issued) \<Rightarrow>
        if count' < maxRecords_smart_meter \<and> truthy (row (str ''cpe''))
        then (count' + 1, issued @ [Insert_smart_meter_data (smart_meter_values pf row)])
        else (count', issued))"

definition load_smart_meter :: "(ustring \<Rightarrow> real option) \<Rightarrow> js_object list option \<Rightarrow> statement list" where
  "load_smart_meter pf file =
     (case file of None \<Rightarrow> [] | Some rows \<Rightarrow> snd (fold (smart_meter_on_data pf) rows (0, [])))"

subsection \<open>Breakdown\<close>

definition maxRecords_breakdown :: nat where
  "maxRecords_breakdown = 1000"

definition breakdown_of :: "(ustring \<Rightarrow> real option) \<Rightarrow> js_object \<Rightarrow> breakdown_values" where
  "breakdown_of pf row =
     \<lparr>renewable_biomass = parseFloat pf (row (str ''renewable_biomass'')),
      renewable_hydro = parseFloat pf (row (str ''renewable_hydro'')),
      renewable_solar = parseFloat pf (row (str ''renewable_solar'')),
      renewable_wind = parseFloat pf (row (str ''renewable_wind'')),
      renewable_geothermal = parseFloat pf (row (str ''renewable_geothermal'')),
      renewable_otherrenewable = parseFloat pf (row (str ''renewable_otherrenewable'')),
      renewable = parseFloat pf (row (str ''renewable'')),
      nonrenewable_coal = parseFloat pf (row (str ''nonrenewable_coal'')),
      nonrenewable_gas = parseFloat pf (row (str ''nonrenewable_gas'')),
      nonrenewable_nuclear = parseFloat pf (row (str ''nonrenewable_nuclear'')),
      nonrenewable_oil = parseFloat pf (row (str ''nonrenewable_oil'')),
      nonrenewable = parseFloat pf (row (str ''nonrenewable'')),
      hydropumpedstorage = parseFloat pf (row (str ''hydropumpedstorage'')),
      unknown = parseFloat pf (row (str ''unknown''))\<rparr>"

definition breakdown_on_data ::
  "(ustring \<Rightarrow> real option) \<Rightarrow> js_object \<Rightarrow> nat \<times> statement list \<Rightarrow> nat \<times> statement list" where
  "breakdown_on_data pf row st =
     (case st of (count', issued) \<Rightarrow>
        if count' < maxRecords_breakdown
        then (count' + 1,
              issued @ [Insert_energy_breakdown (row (str ''timestamp''), breakdown_of pf row)])
        else (count', issued))"

definition load_breakdown :: "(ustring \<Rightarrow> real option) \<Rightarrow> js_object list option \<Rightarrow> statement list" where
  "load_breakdown pf file =
     (case file of None \<Rightarrow> [] | Some rows \<Rightarrow> snd (fold (breakdown_on_data pf) rows (0, [])))"

text \<open>
  The statements \<open>loadCSVData\<close> issues: the three deletes, then those of the three
  streams. The streams are read at the same time, so that their statements are issued
  interleaved; the statements of each stream stand here in the order of its lines, one
  stream after the other. No statement fails: the \<open>catch\<close> branch is not taken.
\<close>

definition loadCSVData :: "(ustring \<Rightarrow> real option) \<Rightarrow> sources \<Rightarrow> statement list" where
  "loadCSVData pf src =
     [Delete_from_smart_meter_data, Delete_from_energy_breakdown, Delete_from_metadata] @
     load_metadata pf (metadata_csv src) @
     load_smart_meter pf (smart_meter_csv src) @
     load_breakdown pf (breakdown_csv src)"

text \<open>
  The store after a load whose statements have all run, in the order \<open>sched\<close>. With the
  order in which they were issued, every delete runs before the inserts into its table.
\<close>

definition loaded :: "statement list \<Rightarrow> db \<Rightarrow> db" where
  "loaded sched d = fold run sched d"

section \<open>SQL\<close>

text \<open>
  \<open>strftime\<close> is SQLite's; it is a parameter \<open>sf\<close> of every query that uses it, from
  a format and a time string to the formatted text, NULL (\<open>None\<close>) when the time string
  is not a date. On a NULL time it is NULL.
\<close>

type_synonym strftime_fun = "ustring \<Rightarrow> ustring \<Rightarrow> ustring option"

definition strftime :: "strftime_fun \<Rightarrow> ustring \<Rightarrow> ustring option \<Rightarrow> ustring option" where
  "strftime sf fmt v = (case v of None \<Rightarrow> None | Some t \<Rightarrow> sf fmt t)"

text \<open>\<open>a = b\<close> in a WHERE or ON clause: a comparison with NULL is not true.\<close>

definition sql_eq :: "'a option \<Rightarrow> 'a option \<Rightarrow> bool" where
  "sql_eq a b \<longleftrightarrow> a \<noteq> None \<and> a = b"

text \<open>
  \<open>SUM\<close> skips NULL and is NULL when nothing is left. The sum of the values that are
  left is a floating-point sum, and SQLite's: it is a parameter \<open>fsum\<close> of every query
  that uses it, from the values, in the order of the rows, to their total.
\<close>

type_synonym sum_fun = "real list \<Rightarrow> real"

definition sum_agg :: "sum_fun \<Rightarrow> real option list \<Rightarrow> real option" where
  "sum_agg fsum vs = (case List.map_filter id vs of [] \<Rightarrow> None | x # xs \<Rightarrow> Some (fsum (x # xs)))"

definition coalesce :: "real option \<Rightarrow> real \<Rightarrow> real" where
  "coalesce v z = (case v of None \<Rightarrow> z | Some x \<Rightarrow> x)"

text \<open>
  \<open>GROUP BY\<close>: the rows with equal keys form a group (NULL keys are equal to each other);
  the groups stand in the order of their first rows.
\<close>

fun group_by :: "('r \<Rightarrow> 'k) \<Rightarrow> 'r list \<Rightarrow> ('k \<times> 'r list) list" where
  "group_by f [] = []"
| "group_by f (x # xs) =
     (f x, x # filter (\<lambda>y. f y = f x) xs) # group_by f (filter (\<lambda>y. f y \<noteq> f x) xs)"

text \<open>\<open>a LEFT JOIN b ON c\<close>: a row of \<open>a\<close> with no partner is kept once, NULL-extended.\<close>

definition left_join :: "('a \<Rightarrow> 'b \<Rightarrow> bool) \<Rightarrow> 'a list \<Rightarrow> 'b list \<Rightarrow> ('a \<times> 'b option) list" where
  "left_join on xs ys =
     concat (map (\<lambda>x. case filter (on x) ys of
                         [] \<Rightarrow> [(x, None)]
                       | m # ms \<Rightarrow> map (\<lambda>y. (x, Some y)) (m # ms)) xs)"

text \<open>
  \<open>ORDER BY\<close>: NULL is the smallest value. Rows with equal keys keep their order, also
  with \<open>DESC\<close>; SQL leaves it open.
\<close>

definition order_by :: "('r \<Rightarrow> 'k::linorder) \<Rightarrow> 'r list \<Rightarrow> 'r list" where
  "order_by f rows = sort_key f rows"

definition order_by_desc :: "('r \<Rightarrow> 'k::linorder) \<Rightarrow> 'r list \<Rightarrow> 'r list" where
  "order_by_desc f rows = rev (sort_key f (rev rows))"

text \<open>
  \<open>LIKE\<close>: in the pattern \<open>%\<close> (37) stands for any run of characters and \<open>_\<close> (95) for any
  one character; the letters A to Z and a to z match without regard to case.
\<close>

definition lower :: "nat \<Rightarrow> nat" where
  "lower c = (if 65 \<le> c \<and> c \<le> 90 then c + 32 else c)"

fun like :: "ustring \<Rightarrow> ustring \<Rightarrow> bool" where
  "like [] s \<longleftrightarrow> s = []"
| "like (p # ps) [] \<longleftrightarrow> p = 37 \<and> like ps []"
| "like (p # ps) (c # cs) \<longleftrightarrow>
     (if p = 37 then like ps (c # cs) \<or> like (p # ps) cs
      else (p = 95 \<or> lower p = lower c) \<and> like ps cs)"

section \<open>The routes\<close>

text \<open>
  A response is the status and the body that \<open>res.json\<close> sends. The store answers every
  query: the branch \<open>if (err)\<close> of the callbacks, status 500, is not taken.
\<close>

datatype 'r body = Rows "'r list" | Error ustring

record 'r response =
  status :: nat
  body :: "'r body"

record req_query =
  q_year :: "ustring option"
  q_month :: "ustring option"
  q_day :: "ustring option"
  q_timestamp :: "ustring option"

text \<open>\<open>a || b\<close> on a string or \<open>undefined\<close>, and \<open>${a}\<close> in a template literal.\<close>

definition or_else :: "ustring option \<Rightarrow> ustring \<Rightarrow> ustring" where
  "or_else a b = (if truthy a then (case a of Some s \<Rightarrow> s | None \<Rightarrow> b) else b)"

definition template :: "ustring option \<Rightarrow> ustring" where
  "template a = (case a of None \<Rightarrow> str ''undefined'' | Some s \<Rightarrow> s)"

subsection \<open>GET /api/buildings\<close>

record building_row = metadata_row +
  annual_energy :: real

definition buildings_query :: "sum_fun \<Rightarrow> db \<Rightarrow> building_row list" where
  "buildings_query fsum d =
     order_by_desc annual_energy
       (map (\<lambda>(m, g).
               \<lparr>m_cpe = m_cpe m, m_lat = m_lat m, m_lon = m_lon m,
                m_totalarea = m_totalarea m, m_name = m_name m,
                m_fulladdress = m_fulladdress m,
                annual_energy =
                  coalesce (sum_agg fsum (map (\<lambda>j. Option.bind (snd j) smd_active_energy) g)) 0\<rparr>)
          (group_by fst
             (left_join (\<lambda>m smd. sql_eq (Some (m_cpe m)) (smd_cpe smd))
                (metadata d) (smart_meter_data d))))"

definition buildings_handler :: "sum_fun \<Rightarrow> db \<Rightarrow> building_row response" where
  "buildings_handler fsum d = \<lparr>status = 200, body = Rows (buildings_query fsum d)\<rparr>"

subsection \<open>GET /api/energy/:cpe/:period\<close>

datatype period_query = Monthly | Daily | Hourly

record bucket_row =
  bucket :: "ustring option"
  total_energy :: "real option"

text \<open>
  The three statements differ in three formats: the one the WHERE clause compares with
  the parameter, the one of the selected label, and the one of the GROUP BY. The label of
  a group is taken from its first row.
\<close>

fun formats :: "period_query \<Rightarrow> ustring \<times> ustring \<times> ustring" where
  "formats Monthly = (str ''%Y'', str ''%Y-%m'', str ''%Y-%m'')"
| "formats Daily = (str ''%Y-%m'', str ''%Y-%m-%d'', str ''%Y-%m-%d'')"
| "formats Hourly = (str ''%Y-%m-%d'', str ''%H:00'', str ''%H'')"

definition energy_query ::
  "sum_fun \<Rightarrow> strftime_fun \<Rightarrow> db \<Rightarrow> period_query \<Rightarrow> ustring option \<times> ustring option \<Rightarrow>
     bucket_row list" where
  "energy_query fsum sf d k params =
     (case formats k of (where_fmt, label_fmt, group_fmt) \<Rightarrow>
        order_by bucket
          (map (\<lambda>(key, g).
                  \<lparr>bucket = (case g of [] \<Rightarrow> None | r # _ \<Rightarrow> strftime sf label_fmt (smd_timestamp r)),
                   total_energy = sum_agg fsum (map smd_active_energy g)\<rparr>)
             (group_by (\<lambda>r. strftime sf group_fmt (smd_timestamp r))
                (filter (\<lambda>r. sql_eq (smd_cpe r) (fst params)
                            \<and> sql_eq (strftime sf where_fmt (smd_timestamp r)) (snd params))
                   (smart_meter_data d)))))"

text \<open>
  The switch on the period: the statement and its two parameters, or nothing for the default
  branch. An \<open>undefined\<close> parameter is bound as NULL.
\<close>

definition energy_switch ::
  "ustring \<Rightarrow> ustring \<Rightarrow> req_query \<Rightarrow>
     (period_query \<times> ustring option \<times> ustring option) option" where
  "energy_switch cpe period q =
     (if period = str ''monthly'' then Some (Monthly, Some cpe, q_year q)
      else if period = str ''daily''
        then Some (Daily, Some cpe, Some (or_else (q_month q) (template (q_year q) @ str ''-01'')))
      else if period = str ''hourly''
        then Some (Hourly,
                   Some cpe, Some (or_else (q_day q) (template (q_year q) @ str ''-01-01'')))
      else None)"

text \<open>The handler gives its response and the list of the queries it ran on the store.\<close>

definition energy_handler ::
  "sum_fun \<Rightarrow> strftime_fun \<Rightarrow> db \<Rightarrow> ustring \<Rightarrow> ustring \<Rightarrow> req_query \<Rightarrow>
     bucket_row response \<times> (period_query \<times> ustring option \<times> ustring option) list" where
  "energy_handler fsum sf d cpe period q =
     (case energy_switch cpe period q of
        None \<Rightarrow> (\<lparr>status = 400, body = Error (str ''Invalid period'')\<rparr>, [])
      | Some (k, params) \<Rightarrow>
          (\<lparr>status = 200, body = Rows (energy_query fsum sf d k params)\<rparr>, [(k, params)]))"

subsection \<open>GET /api/energy-breakdown\<close>

definition breakdown_query :: "db \<Rightarrow> ustring option \<Rightarrow> energy_breakdown_row list" where
  "breakdown_query d pattern =
     take 24
       (order_by eb_timestamp
          (filter (\<lambda>r. case pattern of
                          None \<Rightarrow> True
                        | Some p \<Rightarrow> (case eb_timestamp r of None \<Rightarrow> False | Some t \<Rightarrow> like p t))
             (energy_breakdown d)))"

definition breakdown_handler :: "db \<Rightarrow> req_query \<Rightarrow> energy_breakdown_row response" where
  "breakdown_handler d q =
     \<lparr>status = 200,
      body = Rows (breakdown_query d
                     (if truthy (q_timestamp q)
                      then Some (template (q_timestamp q) @ str ''%'') else None))\<rparr>"

subsection \<open>GET /api/buildings-energy\<close>

record building_energy_row =
  be_cpe :: ustring
  be_name :: "ustring option"
  be_lat :: "real option"
  be_lon :: "real option"
  be_totalarea :: "real option"
  be_annual_energy :: "real option"

definition buildings_energy_query ::
  "sum_fun \<Rightarrow> strftime_fun \<Rightarrow> db \<Rightarrow> ustring \<Rightarrow> building_energy_row list" where
  "buildings_energy_query fsum sf d year =
     order_by_desc be_annual_energy
       (map (\<lambda>(key, g).
               (case key of (cpe, name, lat, lon, totalarea) \<Rightarrow>
                  \<lparr>be_cpe = cpe, be_name = name, be_lat = lat, be_lon = lon,
                   be_totalarea = totalarea,
                   be_annual_energy =
                     sum_agg fsum (map (\<lambda>j. Option.bind (snd j) smd_active_energy) g)\<rparr>))
          (group_by (\<lambda>j. (m_cpe (fst j), m_name (fst j), m_lat (fst j), m_lon (fst j),
                           m_totalarea (fst j)))
             (filter (\<lambda>j. sql_eq (strftime sf (str ''%Y'') (Option.bind (snd j) smd_timestamp))
                              (Some year))
                (left_join (\<lambda>m smd. sql_eq (Some (m_cpe m)) (smd_cpe smd))
                   (metadata d) (smart_meter_data d)))))"

definition buildings_energy_handler ::
  "sum_fun \<Rightarrow> strftime_fun \<Rightarrow> db \<Rightarrow> req_query \<Rightarrow> building_energy_row response" where
  "buildings_energy_handler fsum sf d q =
     \<lparr>status = 200,
      body = Rows (buildings_energy_query fsum sf d (or_else (q_year q) (str ''2021'')))\<rparr>"

section \<open>Reading the results\<close>

text \<open>A NULL total adds nothing to a sum of totals.\<close>

definition null_as_zero :: "real option \<Rightarrow> real" where
  "null_as_zero v = (case v of None \<Rightarrow> 0 | Some x \<Rightarrow> x)"

text \<open>
  The energies, NULL left out, of the stored readings of a building whose time has the
  year \<open>y\<close> and the month \<open>m\<close>: the values that the SUM of the monthly query adds for
  the bucket \<open>m\<close>.
\<close>

definition month_values ::
  "strftime_fun \<Rightarrow> db \<Rightarrow> ustring \<Rightarrow> ustring \<Rightarrow> ustring option \<Rightarrow> real list" where
  "month_values sf d cpe y m =
     List.map_filter smd_active_energy
       (filter (\<lambda>r. strftime sf (str ''%Y-%m'') (smd_timestamp r) = m)
          (filter (\<lambda>r. smd_cpe r = Some cpe \<and>
                       strftime sf (str ''%Y'') (smd_timestamp r) = Some y)
             (smart_meter_data d)))"

text \<open>A stored row without its surrogate id.\<close>

definition smd_content :: "smart_meter_row \<Rightarrow> ustring option \<times> ustring option \<times> real option" where
  "smd_content r = (smd_cpe r, smd_timestamp r, smd_active_energy r)"

definition eb_content :: "energy_breakdown_row \<Rightarrow> ustring option \<times> breakdown_values" where
  "eb_content r = (eb_timestamp r, eb_values r)"

text \<open>The values of the inserts into the meter readings among some statements.\<close>

fun smart_meter_inserts ::
  "statement list \<Rightarrow> (ustring option \<times> ustring option \<times> real option) list" where
  "smart_meter_inserts [] = []"
| "smart_meter_inserts (Insert_smart_meter_data v # ss) = v # smart_meter_inserts ss"
| "smart_meter_inserts (s # ss) = smart_meter_inserts ss"

text \<open>A time begins with a prefix, and does so up to the case of the letters A to Z.\<close>

definition begins_with :: "ustring \<Rightarrow> ustring \<Rightarrow> bool" where
  "begins_with t p \<longleftrightarrow> take (length p) t = p"

definition begins_with_nocase :: "ustring \<Rightarrow> ustring \<Rightarrow> bool" where
  "begins_with_nocase t p \<longleftrightarrow> length p \<le> length t \<and> map lower (take (length p) t) = map lower p"

text \<open>
  The rows of the breakdown relation that a request selects: all of them without a
  \<open>timestamp\<close> parameter (or with an empty one), else those whose time matches the
  parameter followed by \<open>%\<close>.
\<close>

definition selected :: "req_query \<Rightarrow> energy_breakdown_row \<Rightarrow> bool" where
  "selected q r \<longleftrightarrow>
     (case q_timestamp q of
        None \<Rightarrow> True
      | Some p \<Rightarrow>
          p = [] \<or> (case eb_timestamp r of None \<Rightarrow> False | Some t \<Rightarrow> like (p @ str ''%'') t))"

section \<open>An example\<close>

text \<open>
  An instance of \<open>strftime\<close> for times written \<open>YYYY-MM-DDTHH:MM:SS\<close>, on the formats the
  routes use, and one of \<open>parseFloat\<close> on the cells of the example files.
\<close>

definition example_strftime :: strftime_fun where
  "example_strftime fmt t =
     (if length t \<noteq> 19 then None
      else if fmt = str ''%Y'' then Some (take 4 t)
      else if fmt = str ''%Y-%m'' then Some (take 7 t)
      else if fmt = str ''%Y-%m-%d'' then Some (take 10 t)
      else if fmt = str ''%H'' then Some (take 2 (drop 11 t))
      else if fmt = str ''%H:00'' then Some (take 2 (drop 11 t) @ str '':00'')
      else None)"

definition example_parseFloat :: "ustring \<Rightarrow> real option" where
  "example_parseFloat s =
     (if s = str ''40.0'' then Some 40
      else if s = str ''41.0'' then Some 41
      else if s = str ''1000'' then Some 1000
      else if s = str ''5.0'' then Some 5
      else if s = str ''3.0'' then Some 3
      else None)"

text \<open>
  An instance of the sum of SUM: the values are added one after the other, from 0, and
  every sum is rounded to the nearest double (binary64), to the even one of the two
  nearest. \<open>to_double\<close> rounds to a multiple of the distance of the doubles around its
  argument; sums beyond the largest double are left out. (SQLite adds this way up to
  version 3.42 and with a compensation term since; on the sums of the examples below
  the two agree.)
\<close>

definition round_even :: "real \<Rightarrow> int" where
  "round_even x =
     (if x - of_int \<lfloor>x\<rfloor> < 1 / 2 then \<lfloor>x\<rfloor>
      else if 1 / 2 < x - of_int \<lfloor>x\<rfloor> then \<lfloor>x\<rfloor> + 1
      else if even \<lfloor>x\<rfloor> then \<lfloor>x\<rfloor> else \<lfloor>x\<rfloor> + 1)"

definition to_double :: "real \<Rightarrow> real" where
  "to_double x =
     (if x = 0 then 0
      else of_int (round_even (x / 2 powi (max \<lfloor>log 2 \<bar>x\<bar>\<rfloor> (- 1022) - 52))) *
           2 powi (max \<lfloor>log 2 \<bar>x\<bar>\<rfloor> (- 1022) - 52))"

definition double_sum :: sum_fun where
  "double_sum xs = foldl (\<lambda>a x. to_double (a + x)) 0 xs"

definition example_reading :: "ustring \<Rightarrow> ustring \<Rightarrow> ustring \<Rightarrow> js_object" where
  "example_reading c t e =
     [str ''cpe'' \<mapsto> c, str ''timestamp'' \<mapsto> t, str ''active_energy'' \<mapsto> e]"

definition example_sources :: sources where
  "example_sources =
     \<lparr>metadata_csv = Some
        [[str ''cpe'', str ''lat'', str ''lon'', str ''totalarea'', str ''name'', str ''fulladdress''],
         [str ''B1'', str ''40.0'', str ''x'', str ''1000'', str ''A'', str ''1 Main St''],
         [[], str ''41.0'', str ''x'', str ''1000'', str ''C'', str ''3 Main St''],
         [str ''B2'', str ''41.0'', str ''x'', str ''1000'', str ''B'', str ''2 Main St'']],
      smart_meter_csv = Some
        [example_reading (str ''B1'') (str ''2021-03-01T00:00:00'') (str ''5.0''),
         example_reading (str ''B1'') (str ''2021-03-02T00:00:00'') (str ''3.0'')],
      breakdown_csv = Some
        [[str ''timestamp'' \<mapsto> str ''2021-03-01T00:00:00'', str ''renewable'' \<mapsto> str ''5.0'']]\<rparr>"

definition empty_db :: db where
  "empty_db =
     \<lparr>metadata = [], smart_meter_data = [], smart_meter_seq = 0,
      energy_breakdown = [], energy_breakdown_seq = 0\<rparr>"

definition no_values :: breakdown_values where
  "no_values =
     \<lparr>renewable_biomass = None, renewable_hydro = None, renewable_solar = None,
      renewable_wind = None, renewable_geothermal = None, renewable_otherrenewable = None,
      renewable = None, nonrenewable_coal = None, nonrenewable_gas = None,
      nonrenewable_nuclear = None, nonrenewable_oil = None, nonrenewable = None,
      hydropumpedstorage = None, unknown = None\<rparr>"

text \<open>The store after a load of the example files that ran in the order of its statements.\<close>

definition example_db :: db where
  "example_db =
     \<lparr>metadata =
        [\<lparr>m_cpe = str ''B1'', m_lat = Some 40, m_lon = None, m_totalarea = Some 1000,
          m_name = Some (str ''A''), m_fulladdress = Some (str ''1 Main St'')\<rparr>,
         \<lparr>m_cpe = str ''B2'', m_lat = Some 41, m_lon = None, m_totalarea = Some 1000,
          m_name = Some (str ''B''), m_fulladdress = Some (str ''2 Main St'')\<rparr>],
      smart_meter_data =
        [\<lparr>smd_id = 1, smd_cpe = Some (str ''B1''),
          smd_timestamp = Some (str ''2021-03-01T00:00:00''), smd_active_energy = Some 5\<rparr>,
         \<lparr>smd_id = 2, smd_cpe = Some (str ''B1''),
          smd_timestamp = Some (str ''2021-03-02T00:00:00''), smd_active_energy = Some 3\<rparr>],
      smart_meter_seq = 2,
      energy_breakdown =
        [\<lparr>eb_id = 1, eb_timestamp = Some (str ''2021-03-01T00:00:00''),
          eb_values = no_values\<lparr>renewable := Some 5\<rparr>\<rparr>],
      energy_breakdown_seq = 1\<rparr>"

definition no_params :: req_query where
  "no_params = \<lparr>q_year = None, q_month = None, q_day = None, q_timestamp = None\<rparr>"

text \<open>A meter-reading file of 10001 lines, of which only the last has a building code.\<close>

definition example_long_file :: "js_object list" where
  "example_long_file =
     replicate 10000 (example_reading [] (str ''2021-03-01T00:00:00'') (str ''5.0'')) @
     [example_reading (str ''B1'') (str ''2021-03-02T00:00:00'') (str ''3.0'')]"

definition only_smart_meter :: "js_object list \<Rightarrow> sources" where
  "only_smart_meter rows =
     \<lparr>metadata_csv = None, smart_meter_csv = Some rows, breakdown_csv = None\<rparr>"

text \<open>
  An order of the statements of a load of the example files in which the delete of the
  meter readings runs last, after the inserts.
\<close>

definition example_late_delete :: "statement list" where
  "example_late_delete =
     filter (\<lambda>s. s \<noteq> Delete_from_smart_meter_data)
       (loadCSVData example_parseFloat example_sources) @
     [Delete_from_smart_meter_data]"

text \<open>
  A store with three readings of one building, in January and in February: the sum of
  the two of January is no double.
\<close>

definition rounding_db :: db where
  "rounding_db =
     empty_db\<lparr>smart_meter_data :=
        [\<lparr>smd_id = 1, smd_cpe = Some (str ''B1''),
          smd_timestamp = Some (str ''2021-01-01T00:00:00''),
          smd_active_energy = Some 10000000000000000\<rparr>,
         \<lparr>smd_id = 2, smd_cpe = Some (str ''B1''),
          smd_timestamp = Some (str ''2021-01-02T00:00:00''), smd_active_energy = Some 1\<rparr>,
         \<lparr>smd_id = 3, smd_cpe = Some (str ''B1''),
          smd_timestamp = Some (str ''2021-02-01T00:00:00''), smd_active_energy = Some 1\<rparr>],
       smart_meter_seq := 3\<rparr>"

section \<open>Grouping and sums\<close>

lemma group_by_keys: "fst ` set (group_by f xs) = f ` set xs"
proof (induction f xs rule: group_by.induct)
  case (1 f)
  show ?case by simp
next
  case (2 f x xs)
  have "f ` set (filter (\<lambda>y. f y \<noteq> f x) xs) = f ` set xs - {f x}"
    by auto
  with 2 show ?case by auto
qed

lemma group_by_distinct: "distinct (map fst (group_by f xs))"
proof (induction f xs rule: group_by.induct)
  case (1 f)
  show ?case by simp
next
  case (2 f x xs)
  have "f x \<notin> fst ` set (group_by f (filter (\<lambda>y. f y \<noteq> f x) xs))"
    unfolding group_by_keys by auto
  with 2 show ?case by simp
qed

lemma group_by_member:
  "(k, g) \<in> set (group_by f xs) \<Longrightarrow> g = filter (\<lambda>y. f y = k) xs \<and> g \<noteq> []"
proof (induction f xs rule: group_by.induct)
  case (1 f)
  then show ?case by simp
next
  case (2 f x xs)
  show ?case
  proof (cases "k = f x")
    case True
    have "f x \<notin> fst ` set (group_by f (filter (\<lambda>y. f y \<noteq> f x) xs))"
      unfolding group_by_keys by auto
    with True 2(2) have "g = x # filter (\<lambda>y. f y = f x) xs"
      by (auto simp: image_iff)
    with True show ?thesis by simp
  next
    case False
    with 2(2) have "(k, g) \<in> set (group_by f (filter (\<lambda>y. f y \<noteq> f x) xs))"
      by auto
    from 2(1)[OF this]
    have "g = filter (\<lambda>y. f y = k) (filter (\<lambda>y. f y \<noteq> f x) xs)" and "g \<noteq> []"
      by auto
    moreover have "filter (\<lambda>y. f y = k) (filter (\<lambda>y. f y \<noteq> f x) xs) = filter (\<lambda>y. f y = k) xs"
      using False by (auto intro: filter_cong)
    ultimately show ?thesis using False by auto
  qed
qed

lemma sum_list_split:
  "sum_list (map h (filter P xs)) + sum_list (map h (filter (\<lambda>y. \<not> P y) xs)) =
     (sum_list (map h xs) :: real)"
  by (induction xs) auto

lemma group_by_sum:
  "(\<Sum>kg\<leftarrow>group_by f xs. sum_list (map h (snd kg))) = (sum_list (map h xs) :: real)"
proof (induction f xs rule: group_by.induct)
  case (1 f)
  show ?case by simp
next
  case (2 f x xs)
  show ?case
    using 2 sum_list_split[of h "\<lambda>y. f y = f x" xs] by simp
qed

lemma sum_list_null_as_zero:
  "sum_list (List.map_filter id vs) = sum_list (map null_as_zero vs)"
  by (induction vs) (auto simp: List.map_filter_def null_as_zero_def split: option.splits)

lemma null_as_zero_sum_agg:
  assumes "List.map_filter id vs \<noteq> [] \<longrightarrow>
             fsum (List.map_filter id vs) = sum_list (List.map_filter id vs)"
  shows "null_as_zero (sum_agg fsum vs) = sum_list (map null_as_zero vs)"
proof (cases "List.map_filter id vs")
  case Nil
  then show ?thesis
    using sum_list_null_as_zero[of vs] by (simp add: sum_agg_def null_as_zero_def)
next
  case (Cons x xs)
  with assms have "fsum (x # xs) = sum_list (x # xs)"
    by simp
  with Cons show ?thesis
    using sum_list_null_as_zero[of vs] by (simp add: sum_agg_def null_as_zero_def)
qed

lemma sum_list_insort_key:
  "sum_list (map h (insort_key f x xs)) = (h x + sum_list (map h xs) :: real)"
  by (induction xs) auto

lemma sum_list_sort_key: "sum_list (map h (sort_key f xs)) = (sum_list (map h xs) :: real)"
  by (induction xs) (auto simp: sum_list_insort_key)

section \<open>The example store\<close>

lemmas load_defs =
  loadCSVData_def load_metadata_def load_smart_meter_def load_breakdown_def
  metadata_stream_def metadata_on_data_def metadata_on_end_def metadata_insert_def
  metadata_values_def dataRow_def header_at_def trim_def strip_bom_def is_white_space_def
  parseFloat_def smart_meter_on_data_def smart_meter_values_def
  truthy_def maxRecords_smart_meter_def
  maxRecords_breakdown_def breakdown_on_data_def breakdown_of_def

lemmas run_defs =
  loaded_def run_def insert_or_replace_def insert_smart_meter_def insert_breakdown_def
  next_id_def

lemma example_statements:
  "loadCSVData example_parseFloat example_sources =
     [Delete_from_smart_meter_data, Delete_from_energy_breakdown, Delete_from_metadata,
      Insert_or_replace_metadata
        \<lparr>m_cpe = str ''B1'', m_lat = Some 40, m_lon = None, m_totalarea = Some 1000,
         m_name = Some (str ''A''), m_fulladdress = Some (str ''1 Main St'')\<rparr>,
      Insert_or_replace_metadata
        \<lparr>m_cpe = str ''B2'', m_lat = Some 41, m_lon = None, m_totalarea = Some 1000,
         m_name = Some (str ''B''), m_fulladdress = Some (str ''2 Main St'')\<rparr>,
      Insert_smart_meter_data
        (Some (str ''B1''), Some (str ''2021-03-01T00:00:00''), Some 5),
      Insert_smart_meter_data
        (Some (str ''B1''), Some (str ''2021-03-02T00:00:00''), Some 3),
      Insert_energy_breakdown
        (Some (str ''2021-03-01T00:00:00''), no_values\<lparr>renewable := Some 5\<rparr>)]"
  by (simp add: load_defs example_sources_def example_parseFloat_def example_reading_def
      no_values_def str_def)

lemma example_db_loaded:
  "loaded (loadCSVData example_parseFloat example_sources) empty_db = example_db"
  unfolding example_statements
  by (simp add: run_defs example_db_def empty_db_def str_def)

lemma schedule_issued: "schedule issued issued"
  by (simp add: schedule_def)

section \<open>Sums of doubles\<close>

lemma to_double_eq:
  assumes "2 powi e \<le> \<bar>x\<bar>" and "\<bar>x\<bar> < 2 powi (e + 1)" and "- 1022 \<le> e"
  shows "to_double x = of_int (round_even (x / 2 powi (e - 52))) * 2 powi (e - 52)"
proof -
  have pos: "0 < \<bar>x\<bar>"
    using assms(1) by (smt (verit) zero_less_power_int)
  have "(2::real) powr real_of_int e = 2 powi e" "(2::real) powr (real_of_int e + 1) = 2 powi (e + 1)"
    using powr_real_of_int'[of "2::real" e] powr_real_of_int'[of "2::real" "e + 1"] by simp_all
  with assms pos have "\<lfloor>log 2 \<bar>x\<bar>\<rfloor> = e"
    by (simp add: floor_log_eq_powr_iff)
  with assms(3) pos show ?thesis
    by (simp add: to_double_def max_def)
qed

lemma round_even_of_int: "round_even (of_int n) = n"
  by (simp add: round_even_def)

lemma double_sum_5_3: "double_sum [5, 3] = 8"
proof -
  have 5: "to_double 5 = 5"
    using to_double_eq[of 2 5] round_even_of_int[of "5 * 2 ^ 50"]
    by (simp add: power_int_minus)
  have 8: "to_double 8 = 8"
    using to_double_eq[of 3 8] round_even_of_int[of "8 * 2 ^ 49"]
    by (simp add: power_int_minus)
  show ?thesis
    by (simp add: double_sum_def 5 8)
qed

lemma double_sum_1: "double_sum [1] = 1"
proof -
  have "to_double 1 = 1"
    using to_double_eq[of 0 1] round_even_of_int[of "2 ^ 52"]
    by (simp add: power_int_minus)
  then show ?thesis
    by (simp add: double_sum_def)
qed

lemma double_sum_rounds: "double_sum [10000000000000000, 1] = 10000000000000000"
proof -
  have a: "to_double 10000000000000000 = 10000000000000000"
    using to_double_eq[of 53 10000000000000000] round_even_of_int[of 5000000000000000]
    by simp
  have "round_even (10000000000000001 / 2) = 5000000000000000"
    by (simp add: round_even_def)
  then have b: "to_double 10000000000000001 = 10000000000000000"
    using to_double_eq[of 53 10000000000000001]
    by simp
  show ?thesis
    by (simp add: double_sum_def a b)
qed

section \<open>The time-bucketed series\<close>

lemma energy_query_monthly:
  "energy_query fsum sf d Monthly (Some cpe, Some y) =
     order_by bucket
       (map (\<lambda>(key, g).
               \<lparr>bucket = (case g of [] \<Rightarrow> None
                           | r # _ \<Rightarrow> strftime sf (str ''%Y-%m'') (smd_timestamp r)),
                total_energy = sum_agg fsum (map smd_active_energy g)\<rparr>)
          (group_by (\<lambda>r. strftime sf (str ''%Y-%m'') (smd_timestamp r))
             (filter (\<lambda>r. smd_cpe r = Some cpe \<and>
                          strftime sf (str ''%Y'') (smd_timestamp r) = Some y)
                (smart_meter_data d))))"
proof -
  have "filter (\<lambda>r. sql_eq (smd_cpe r) (Some cpe) \<and>
                    sql_eq (strftime sf (str ''%Y'') (smd_timestamp r)) (Some y))
          (smart_meter_data d) =
        filter (\<lambda>r. smd_cpe r = Some cpe \<and> strftime sf (str ''%Y'') (smd_timestamp r) = Some y)
          (smart_meter_data d)"
    by (auto simp: sql_eq_def intro: filter_cong)
  then show ?thesis
    by (simp add: energy_query_def)
qed

text \<open>
  Claim C2, as the code has it. For a building code and a year, the totals of the buckets
  that the monthly query returns add up to the sum of the active energy of the stored
  readings of that building whose time has that year (\<open>strftime('%Y', timestamp)\<close> is
  the year asked for), where the floating-point sum that SUM computes for every month is
  exact: grouping by month loses and repeats no reading.
\<close>

theorem monthly_totals_sum:
  assumes "q_year q = Some y"
    and "\<forall>m. month_values sf d cpe y m \<noteq> [] \<longrightarrow>
           fsum (month_values sf d cpe y m) = sum_list (month_values sf d cpe y m)"
  shows "\<exists>rows. body (fst (energy_handler fsum sf d cpe (str ''monthly'') q)) = Rows rows \<and>
      (\<Sum>b\<leftarrow>rows. null_as_zero (total_energy b)) =
      (\<Sum>r\<leftarrow>filter (\<lambda>r. smd_cpe r = Some cpe \<and>
                          strftime sf (str ''%Y'') (smd_timestamp r) = Some y)
             (smart_meter_data d). null_as_zero (smd_active_energy r))"
proof -
  let ?sel = "filter (\<lambda>r. smd_cpe r = Some cpe \<and>
                          strftime sf (str ''%Y'') (smd_timestamp r) = Some y)
                (smart_meter_data d)"
  let ?key = "\<lambda>r. strftime sf (str ''%Y-%m'') (smd_timestamp r)"
  let ?groups = "group_by ?key ?sel"
  have exact: "null_as_zero (sum_agg fsum (map smd_active_energy (snd kg))) =
               sum_list (map (\<lambda>r. null_as_zero (smd_active_energy r)) (snd kg))"
    if "kg \<in> set ?groups" for kg
  proof -
    from that have "snd kg = filter (\<lambda>r. ?key r = fst kg) ?sel"
      using group_by_member[of "fst kg" "snd kg" ?key ?sel] by simp
    then have "List.map_filter id (map smd_active_energy (snd kg)) =
               month_values sf d cpe y (fst kg)"
      by (simp add: month_values_def List.map_filter_def filter_map o_def)
    with assms(2) show ?thesis
      using null_as_zero_sum_agg[of "map smd_active_energy (snd kg)" fsum]
      by (simp add: o_def)
  qed
  have "(\<Sum>b\<leftarrow>energy_query fsum sf d Monthly (Some cpe, Some y). null_as_zero (total_energy b)) =
        (\<Sum>kg\<leftarrow>?groups. null_as_zero (sum_agg fsum (map smd_active_energy (snd kg))))"
    unfolding energy_query_monthly order_by_def sum_list_sort_key
    by (simp add: o_def case_prod_unfold)
  also have "\<dots> = (\<Sum>kg\<leftarrow>?groups. sum_list (map (\<lambda>r. null_as_zero (smd_active_energy r)) (snd kg)))"
    using exact by (simp cong: map_cong)
  also have "\<dots> = (\<Sum>r\<leftarrow>?sel. null_as_zero (smd_active_energy r))"
    by (rule group_by_sum)
  finally show ?thesis
    using assms(1) by (simp add: energy_handler_def energy_switch_def)
qed

theorem monthly_totals_sum_witness:
  "\<exists>rows. body (fst (energy_handler double_sum example_strftime example_db (str ''B1'')
                       (str ''monthly'') (no_params\<lparr>q_year := Some (str ''2021'')\<rparr>))) = Rows rows \<and>
      (\<Sum>b\<leftarrow>rows. null_as_zero (total_energy b)) = 8"
proof -
  have vals: "month_values example_strftime example_db (str ''B1'') (str ''2021'') m =
      (if m = Some (str ''2021-03'') then [5, 3] else [])" for m
    by (auto simp: month_values_def example_db_def example_strftime_def strftime_def
        List.map_filter_def str_def)
  have "\<forall>m. month_values example_strftime example_db (str ''B1'') (str ''2021'') m \<noteq> [] \<longrightarrow>
          double_sum (month_values example_strftime example_db (str ''B1'') (str ''2021'') m) =
          sum_list (month_values example_strftime example_db (str ''B1'') (str ''2021'') m)"
    by (simp add: vals double_sum_5_3)
  from monthly_totals_sum [of "no_params\<lparr>q_year := Some (str ''2021'')\<rparr>" "str ''2021''"
      example_strftime example_db "str ''B1''" double_sum, OF _ this]
  show ?thesis
    by (simp add: no_params_def example_db_def example_strftime_def strftime_def
        null_as_zero_def str_def)
qed

text \<open>
  The claim as the specification states it fails where a SUM rounds: of the readings
  10000000000000000 and 1 in January and 1 in February, the returned totals are
  10000000000000000 and 1.
\<close>

theorem monthly_totals_counterexample:
  "energy_handler double_sum example_strftime rounding_db (str ''B1'') (str ''monthly'')
     (no_params\<lparr>q_year := Some (str ''2021'')\<rparr>) =
     (\<lparr>status = 200,
       body = Rows [\<lparr>bucket = Some (str ''2021-01''), total_energy = Some 10000000000000000\<rparr>,
                    \<lparr>bucket = Some (str ''2021-02''), total_energy = Some 1\<rparr>]\<rparr>,
      [(Monthly, Some (str ''B1''), Some (str ''2021''))]) \<and>
   map smd_active_energy
     (filter (\<lambda>r. smd_cpe r = Some (str ''B1'') \<and>
                  strftime example_strftime (str ''%Y'') (smd_timestamp r) = Some (str ''2021''))
        (smart_meter_data rounding_db)) =
     [Some 10000000000000000, Some 1, Some 1]"
proof -
  have "energy_query double_sum example_strftime rounding_db Monthly
          (Some (str ''B1''), Some (str ''2021'')) =
        [\<lparr>bucket = Some (str ''2021-01''),
          total_energy = Some (double_sum [10000000000000000, 1])\<rparr>,
         \<lparr>bucket = Some (str ''2021-02''), total_energy = Some (double_sum [1])\<rparr>]"
    unfolding energy_query_monthly
    by (simp add: rounding_db_def empty_db_def example_strftime_def strftime_def order_by_def
        sum_agg_def List.map_filter_def str_def)
  then show ?thesis
    by (simp add: energy_handler_def energy_switch_def no_params_def double_sum_rounds
        double_sum_1 rounding_db_def empty_db_def example_strftime_def strftime_def str_def)
qed

text \<open>
  Claim C6. A request whose period is none of \<open>monthly\<close>, \<open>daily\<close>, \<open>hourly\<close> is answered
  with status 400 and an error body, and the handler runs no query on the store.
\<close>

theorem invalid_period_rejected:
  "period \<noteq> str ''monthly'' \<Longrightarrow> period \<noteq> str ''daily'' \<Longrightarrow> period \<noteq> str ''hourly'' \<Longrightarrow>
     energy_handler fsum sf d cpe period q =
       (\<lparr>status = 400, body = Error (str ''Invalid period'')\<rparr>, [])"
  by (simp add: energy_handler_def energy_switch_def)

theorem invalid_period_rejected_witness:
  "str ''weekly'' \<noteq> str ''monthly'' \<and> str ''weekly'' \<noteq> str ''daily'' \<and>
   str ''weekly'' \<noteq> str ''hourly'' \<and>
     energy_handler double_sum example_strftime example_db (str ''B1'') (str ''weekly'') no_params =
       (\<lparr>status = 400, body = Error (str ''Invalid period'')\<rparr>, [])"
  using invalid_period_rejected [of "str ''weekly''" double_sum example_strftime example_db
      "str ''B1''" no_params]
  by (simp add: str_def)

section \<open>Joins and orderings\<close>

lemma left_join_member:
  "(x, v) \<in> set (left_join on xs ys) \<longleftrightarrow>
     x \<in> set xs \<and> (case v of None \<Rightarrow> filter (on x) ys = [] | Some y \<Rightarrow> y \<in> set ys \<and> on x y)"
proof -
  have row: "(case filter (on x') ys of [] \<Rightarrow> [(x', None)]
              | m # ms \<Rightarrow> map (\<lambda>y. (x', Some y)) (m # ms)) =
             (if filter (on x') ys = [] then [(x', None)]
              else map (\<lambda>y. (x', Some y)) (filter (on x') ys))" for x'
    by (cases "filter (on x') ys") simp_all
  have one: "(x, v) \<in> set (if filter (on x') ys = [] then [(x', None)]
                            else map (\<lambda>y. (x', Some y)) (filter (on x') ys)) \<longleftrightarrow>
      x = x' \<and> (case v of None \<Rightarrow> filter (on x) ys = [] | Some y \<Rightarrow> y \<in> set ys \<and> on x y)"
    for x'
    by (cases v) (auto simp: filter_empty_conv)
  have "(x, v) \<in> set (left_join on xs ys) \<longleftrightarrow>
        (\<exists>x'\<in>set xs. (x, v) \<in> set (if filter (on x') ys = [] then [(x', None)]
                            else map (\<lambda>y. (x', Some y)) (filter (on x') ys)))"
    unfolding left_join_def row set_concat set_map by blast
  also have "\<dots> \<longleftrightarrow> x \<in> set xs \<and>
        (case v of None \<Rightarrow> filter (on x) ys = [] | Some y \<Rightarrow> y \<in> set ys \<and> on x y)"
    unfolding one by blast
  finally show ?thesis .
qed

lemma left_join_fst: "fst ` set (left_join on xs ys) = set xs"
proof
  show "fst ` set (left_join on xs ys) \<subseteq> set xs"
    by (auto simp: left_join_member)
  show "set xs \<subseteq> fst ` set (left_join on xs ys)"
  proof
    fix x assume x: "x \<in> set xs"
    show "x \<in> fst ` set (left_join on xs ys)"
    proof (cases "filter (on x) ys")
      case Nil
      with x have "(x, None) \<in> set (left_join on xs ys)"
        by (simp add: left_join_member)
      then show ?thesis by force
    next
      case (Cons y l)
      then have "y \<in> set (filter (on x) ys)" by simp
      with x have "(x, Some y) \<in> set (left_join on xs ys)"
        by (simp add: left_join_member)
      then show ?thesis by force
    qed
  qed
qed

lemma sum_agg_all_null: "\<forall>v\<in>set vs. v = None \<Longrightarrow> sum_agg fsum vs = None"
proof -
  assume "\<forall>v\<in>set vs. v = None"
  then have "List.map_filter id vs = []"
    by (induction vs) (auto simp: List.map_filter_def)
  then show ?thesis by (simp add: sum_agg_def)
qed

lemma order_by_desc_sorted:
  "sorted_wrt (\<lambda>a b. f a \<ge> f b) (order_by_desc f rows)"
proof -
  have "sorted (map f (sort_key f (rev rows)))" by simp
  then have "sorted_wrt (\<lambda>a b. f a \<le> f b) (sort_key f (rev rows))"
    by (simp add: sorted_map)
  then show ?thesis
    by (simp add: order_by_desc_def sorted_wrt_rev)
qed

lemma length_filter_order_by_desc:
  "length (filter P (order_by_desc f rows)) = length (filter P rows)"
  by (simp add: order_by_desc_def filter_sort flip: rev_filter)

lemma distinct_single:
  assumes "distinct ks" and "k \<in> set ks" and "\<forall>k'\<in>set ks. P k' \<longleftrightarrow> k' = k"
  shows "length (filter P ks) = 1"
proof -
  have "distinct (filter P ks)" using assms(1) by simp
  moreover have "set (filter P ks) = {k}" using assms(2,3) by auto
  ultimately have "length (filter P ks) = card {k}"
    by (metis distinct_card)
  then show ?thesis by simp
qed

section \<open>The buildings\<close>

text \<open>
  Claim C1. Where the building codes of the metadata relation are distinct (\<open>cpe\<close> is its
  primary key), the answer of GET /api/buildings has exactly one entry for every building
  of the relation; a building without meter readings has the annual energy 0; and the
  entries are in descending order of their annual energy.
\<close>

theorem buildings_lists_every_building:
  assumes "distinct (map m_cpe (metadata d))" and "m \<in> set (metadata d)"
  shows "\<exists>rows. buildings_handler fsum d = \<lparr>status = 200, body = Rows rows\<rparr> \<and>
           length (filter (\<lambda>b. m_cpe b = m_cpe m) rows) = 1 \<and>
           ((\<forall>r\<in>set (smart_meter_data d). smd_cpe r \<noteq> Some (m_cpe m)) \<longrightarrow>
              (\<forall>b\<in>set rows. m_cpe b = m_cpe m \<longrightarrow> annual_energy b = 0)) \<and>
           sorted_wrt (\<lambda>a b. annual_energy a \<ge> annual_energy b) rows"
proof -
  let ?on = "\<lambda>m smd. sql_eq (Some (m_cpe m)) (smd_cpe smd)"
  let ?J = "left_join ?on (metadata d) (smart_meter_data d)"
  let ?G = "group_by fst ?J"
  let ?mk = "\<lambda>(m, g).
               \<lparr>m_cpe = m_cpe m, m_lat = m_lat m, m_lon = m_lon m,
                m_totalarea = m_totalarea m, m_name = m_name m,
                m_fulladdress = m_fulladdress m,
                annual_energy =
                  coalesce (sum_agg fsum (map (\<lambda>j. Option.bind (snd j) smd_active_energy) g)) 0\<rparr>"
  have rows: "buildings_query fsum d = order_by_desc annual_energy (map ?mk ?G)"
    by (simp add: buildings_query_def)
  have keys: "set (map fst ?G) = set (metadata d)"
    using group_by_keys[of fst ?J] by (simp add: left_join_fst)
  have same: "m' = m" if "m' \<in> set (metadata d)" and "m_cpe m' = m_cpe m" for m'
    using assms that by (meson distinct_map inj_onD)
  have "length (filter (\<lambda>b. m_cpe b = m_cpe m) (buildings_query fsum d)) =
        length (filter (\<lambda>k. m_cpe k = m_cpe m) (map fst ?G))"
    unfolding rows length_filter_order_by_desc
    by (simp add: filter_map o_def case_prod_unfold)
  also have "\<dots> = 1"
  proof (rule distinct_single[where k = m])
    show "distinct (map fst ?G)" by (rule group_by_distinct)
    show "m \<in> set (map fst ?G)" using keys assms(2) by simp
    show "\<forall>k'\<in>set (map fst ?G). (m_cpe k' = m_cpe m) = (k' = m)"
      unfolding keys using same by auto
  qed
  finally have one: "length (filter (\<lambda>b. m_cpe b = m_cpe m) (buildings_query fsum d)) = 1" .
  have zero: "annual_energy b = 0"
    if none: "\<forall>r\<in>set (smart_meter_data d). smd_cpe r \<noteq> Some (m_cpe m)"
      and b: "b \<in> set (buildings_query fsum d)" and c: "m_cpe b = m_cpe m" for b
  proof -
    from b obtain m' g where g: "(m', g) \<in> set ?G" and b': "b = ?mk (m', g)"
      unfolding rows order_by_desc_def by auto
    from g have "m' \<in> set (metadata d)"
      using keys by force
    with c b' have "m' = m" using same by simp
    have "v = None" if "(x, v) \<in> set g" for x v
    proof -
      from g that have "(x, v) \<in> set ?J" and "x = m'"
        using group_by_member[OF g] by auto
      with none \<open>m' = m\<close> show ?thesis
        by (cases v) (auto simp: left_join_member sql_eq_def)
    qed
    then have "\<forall>j\<in>set g. snd j = None"
      by force
    then have "\<forall>v\<in>set (map (\<lambda>j. Option.bind (snd j) smd_active_energy) g). v = None"
      by simp
    from sum_agg_all_null[OF this] show ?thesis
      by (simp add: b' coalesce_def)
  qed
  have "sorted_wrt (\<lambda>a b. annual_energy a \<ge> annual_energy b) (buildings_query fsum d)"
    unfolding rows by (rule order_by_desc_sorted)
  with one zero show ?thesis
    by (auto simp: buildings_handler_def)
qed

theorem buildings_lists_every_building_witness:
  "\<exists>rows. buildings_handler double_sum example_db = \<lparr>status = 200, body = Rows rows\<rparr> \<and>
     length (filter (\<lambda>b. m_cpe b = str ''B2'') rows) = 1 \<and>
     (\<forall>b\<in>set rows. m_cpe b = str ''B2'' \<longrightarrow> annual_energy b = 0) \<and>
     sorted_wrt (\<lambda>a b. annual_energy a \<ge> annual_energy b) rows"
  using buildings_lists_every_building [of example_db "metadata example_db ! 1" double_sum]
  by (simp add: example_db_def str_def)

text \<open>
  Claim C10. In the answer of GET /api/buildings-energy, a building of the metadata
  relation that has no meter reading whose time has the year asked for (the year of the
  request, 2021 without one) has no entry: the WHERE clause drops the NULL-extended rows
  of the left join.
\<close>

theorem buildings_energy_omits_building_without_readings:
  assumes "m \<in> set (metadata d)"
    and "\<forall>r\<in>set (smart_meter_data d). smd_cpe r = Some (m_cpe m) \<longrightarrow>
           strftime sf (str ''%Y'') (smd_timestamp r) \<noteq> Some (or_else (q_year q) (str ''2021''))"
  shows "\<exists>rows. buildings_energy_handler fsum sf d q = \<lparr>status = 200, body = Rows rows\<rparr> \<and>
           (\<forall>b\<in>set rows. be_cpe b \<noteq> m_cpe m)"
proof -
  let ?year = "or_else (q_year q) (str ''2021'')"
  let ?J = "left_join (\<lambda>m smd. sql_eq (Some (m_cpe m)) (smd_cpe smd))
              (metadata d) (smart_meter_data d)"
  let ?F = "filter (\<lambda>j. sql_eq (strftime sf (str ''%Y'') (Option.bind (snd j) smd_timestamp))
                           (Some ?year)) ?J"
  let ?key = "\<lambda>j. (m_cpe (fst j), m_name (fst j), m_lat (fst j), m_lon (fst j),
                    m_totalarea (fst j))"
  let ?mk = "\<lambda>(key, g).
               (case key of (cpe, name, lat, lon, totalarea) \<Rightarrow>
                  \<lparr>be_cpe = cpe, be_name = name, be_lat = lat, be_lon = lon,
                   be_totalarea = totalarea,
                   be_annual_energy =
                     sum_agg fsum (map (\<lambda>j. Option.bind (snd j) smd_active_energy) g)\<rparr>)"
  have rows: "buildings_energy_query fsum sf d ?year =
                order_by_desc be_annual_energy (map ?mk (group_by ?key ?F))"
    by (simp add: buildings_energy_query_def)
  have mk: "be_cpe (?mk kg) = fst (fst kg)"
    for kg :: "(ustring \<times> ustring option \<times> real option \<times> real option \<times> real option) \<times>
               (metadata_row \<times> smart_meter_row option) list"
    by (simp add: case_prod_unfold)
  have "be_cpe b \<noteq> m_cpe m" if "b \<in> set (buildings_energy_query fsum sf d ?year)" for b
  proof
    assume c: "be_cpe b = m_cpe m"
    from that have "b \<in> ?mk ` set (group_by ?key ?F)"
      unfolding rows order_by_desc_def by simp
    then obtain kg where g: "kg \<in> set (group_by ?key ?F)" and b: "b = ?mk kg"
      by blast
    from b c have "m_cpe m = fst (fst kg)"
      using mk[of kg] by simp
    moreover from g have "fst kg \<in> ?key ` set ?F"
      using group_by_keys[of ?key ?F] by blast
    then obtain j where "j \<in> set ?F" and "fst kg = ?key j"
      by blast
    ultimately have j: "j \<in> set ?J" and jm: "m_cpe (fst j) = m_cpe m"
      and y: "sql_eq (strftime sf (str ''%Y'') (Option.bind (snd j) smd_timestamp)) (Some ?year)"
      by simp_all
    from y obtain r where r: "snd j = Some r"
      and ry: "strftime sf (str ''%Y'') (smd_timestamp r) = Some ?year"
      by (cases "snd j") (simp_all add: sql_eq_def strftime_def)
    from j r have "(fst j, Some r) \<in> set ?J"
      by (metis prod.collapse)
    then have "r \<in> set (smart_meter_data d)" and "smd_cpe r = Some (m_cpe (fst j))"
      by (simp_all add: left_join_member sql_eq_def)
    with ry jm show False
      using assms(2) by simp
  qed
  then show ?thesis
    by (simp add: buildings_energy_handler_def)
qed

theorem buildings_energy_omits_building_without_readings_witness:
  "\<exists>rows. buildings_energy_handler double_sum example_strftime example_db no_params =
            \<lparr>status = 200, body = Rows rows\<rparr> \<and>
          (\<forall>b\<in>set rows. be_cpe b \<noteq> str ''B2'')"
  using buildings_energy_omits_building_without_readings
    [of "metadata example_db ! 1" example_db example_strftime no_params double_sum]
  by (simp add: example_db_def str_def)

section \<open>The statements a load issues\<close>

lemma smart_meter_fold:
  "fold (smart_meter_on_data pf) rows (n, ss) =
     (n + length (take (maxRecords_smart_meter - n)
                    (filter (\<lambda>row. truthy (row (str ''cpe''))) rows)),
      ss @ map (\<lambda>row. Insert_smart_meter_data (smart_meter_values pf row))
             (take (maxRecords_smart_meter - n)
                (filter (\<lambda>row. truthy (row (str ''cpe''))) rows)))"
proof (induction rows arbitrary: n ss)
  case Nil
  show ?case by simp
next
  case (Cons row rows)
  show ?case
  proof (cases "n < maxRecords_smart_meter \<and> truthy (row (str ''cpe''))")
    case True
    then obtain k where "maxRecords_smart_meter - n = Suc k" and "maxRecords_smart_meter - Suc n = k"
      by (metis Suc_diff_Suc)
    with True Cons[of "Suc n"] show ?thesis
      by (simp add: smart_meter_on_data_def)
  next
    case False
    then consider "\<not> n < maxRecords_smart_meter"
      | "n < maxRecords_smart_meter" "\<not> truthy (row (str ''cpe''))"
      by blast
    then show ?thesis
    proof cases
      case 1
      then have "maxRecords_smart_meter - n = 0" by simp
      with 1 Cons[of n ss] show ?thesis
        by (simp add: smart_meter_on_data_def)
    next
      case 2
      with Cons[of n ss] show ?thesis
        by (simp add: smart_meter_on_data_def)
    qed
  qed
qed

lemma load_smart_meter_statements:
  "load_smart_meter pf file =
     (case file of
        None \<Rightarrow> []
      | Some rows \<Rightarrow>
          map (\<lambda>row. Insert_smart_meter_data (smart_meter_values pf row))
            (take maxRecords_smart_meter (filter (\<lambda>row. truthy (row (str ''cpe''))) rows)))"
  by (simp add: load_smart_meter_def smart_meter_fold split: option.splits)

lemma breakdown_fold:
  "fold (breakdown_on_data pf) rows (n, ss) =
     (n + length (take (maxRecords_breakdown - n) rows),
      ss @ map (\<lambda>row. Insert_energy_breakdown (row (str ''timestamp''), breakdown_of pf row))
             (take (maxRecords_breakdown - n) rows))"
proof (induction rows arbitrary: n ss)
  case Nil
  show ?case by simp
next
  case (Cons row rows)
  show ?case
  proof (cases "n < maxRecords_breakdown")
    case True
    then obtain k where "maxRecords_breakdown - n = Suc k" and "maxRecords_breakdown - Suc n = k"
      by (metis Suc_diff_Suc)
    with True Cons[of "Suc n"] show ?thesis
      by (simp add: breakdown_on_data_def)
  next
    case False
    then have "maxRecords_breakdown - n = 0" by simp
    with False Cons[of n ss] show ?thesis
      by (simp add: breakdown_on_data_def)
  qed
qed

lemma load_breakdown_statements:
  "load_breakdown pf file =
     (case file of
        None \<Rightarrow> []
      | Some rows \<Rightarrow>
          map (\<lambda>row. Insert_energy_breakdown (row (str ''timestamp''), breakdown_of pf row))
            (take maxRecords_breakdown rows))"
  by (simp add: load_breakdown_def breakdown_fold split: option.splits)

lemma metadata_stream_rest:
  "\<not> isFirstRow st \<Longrightarrow>
     fold metadata_on_data lines st = st\<lparr>parsed := parsed st @ map (dataRow (headers st)) lines\<rparr>"
  by (induction lines arbitrary: st) (simp_all add: metadata_on_data_def)

lemma metadata_stream_Cons:
  "metadata_stream (h # lines) =
     \<lparr>isFirstRow = False, headers = map (\<lambda>v. trim (strip_bom v)) h,
      parsed = map (dataRow (map (\<lambda>v. trim (strip_bom v)) h)) lines\<rparr>"
  by (simp add: metadata_stream_def metadata_on_data_def metadata_stream_rest)

lemma load_metadata_on_metadata: "s \<in> set (load_metadata pf file) \<Longrightarrow> \<exists>r. s = Insert_or_replace_metadata r"
  by (auto simp: load_metadata_def metadata_on_end_def metadata_insert_def
      split: option.splits if_splits)

lemma smart_meter_inserts_append:
  "smart_meter_inserts (xs @ ys) = smart_meter_inserts xs @ smart_meter_inserts ys"
  by (induction xs rule: smart_meter_inserts.induct) simp_all

lemma smart_meter_inserts_none:
  "\<forall>s\<in>set ss. \<forall>v. s \<noteq> Insert_smart_meter_data v \<Longrightarrow> smart_meter_inserts ss = []"
  by (induction ss rule: smart_meter_inserts.induct) auto

lemma smart_meter_inserts_map:
  "smart_meter_inserts (map (\<lambda>x. Insert_smart_meter_data (f x)) xs) = map f xs"
  by (induction xs) simp_all

lemma loadCSVData_smart_meter_inserts:
  "smart_meter_inserts (loadCSVData pf src) =
     (case smart_meter_csv src of
        None \<Rightarrow> []
      | Some rows \<Rightarrow>
          map (smart_meter_values pf)
            (take maxRecords_smart_meter (filter (\<lambda>row. truthy (row (str ''cpe''))) rows)))"
proof -
  have "smart_meter_inserts (load_metadata pf (metadata_csv src)) = []"
    using load_metadata_on_metadata by (intro smart_meter_inserts_none) blast
  moreover have "smart_meter_inserts (load_breakdown pf (breakdown_csv src)) = []"
    by (intro smart_meter_inserts_none) (auto simp: load_breakdown_statements split: option.splits)
  ultimately show ?thesis
    by (simp add: loadCSVData_def smart_meter_inserts_append load_smart_meter_statements
        smart_meter_inserts_map split: option.splits)
qed

lemma loadCSVData_on_metadata:
  "filter on_metadata (loadCSVData pf src) =
     Delete_from_metadata # load_metadata pf (metadata_csv src)"
proof -
  have "filter on_metadata (load_metadata pf (metadata_csv src)) = load_metadata pf (metadata_csv src)"
    using load_metadata_on_metadata[of _ pf "metadata_csv src"]
    by (intro filter_True) (force simp: on_metadata_def)
  moreover have "filter on_metadata (load_smart_meter pf (smart_meter_csv src)) = []"
    by (auto simp: load_smart_meter_statements filter_empty_conv on_metadata_def split: option.splits)
  moreover have "filter on_metadata (load_breakdown pf (breakdown_csv src)) = []"
    by (auto simp: load_breakdown_statements filter_empty_conv on_metadata_def split: option.splits)
  ultimately show ?thesis
    by (simp add: loadCSVData_def on_metadata_def)
qed

lemma loadCSVData_delete: "Delete_from_smart_meter_data \<in> set (loadCSVData pf src)"
  by (simp add: loadCSVData_def)

section \<open>What the statements leave in the store\<close>

lemma run_smart_meter_content:
  "map smd_content (smart_meter_data (run s d)) =
     (case s of
        Delete_from_smart_meter_data \<Rightarrow> []
      | Insert_smart_meter_data v \<Rightarrow> map smd_content (smart_meter_data d) @ [v]
      | _ \<Rightarrow> map smd_content (smart_meter_data d))"
  by (cases s)
     (simp_all add: run_def insert_or_replace_def insert_smart_meter_def insert_breakdown_def
        Let_def smd_content_def)

lemma smart_meter_inserts_Cons:
  "smart_meter_inserts (s # ss) =
     (case s of Insert_smart_meter_data v \<Rightarrow> v # smart_meter_inserts ss
      | _ \<Rightarrow> smart_meter_inserts ss)"
  by (cases s) simp_all

lemma stored_among_inserts:
  "mset (map smd_content (smart_meter_data (fold run ss d))) \<subseteq>#
     mset (map smd_content (smart_meter_data d)) + mset (smart_meter_inserts ss)"
proof (induction ss arbitrary: d)
  case Nil
  show ?case by simp
next
  case (Cons s ss)
  show ?case
    using Cons[of "run s d"]
    by (cases s) (auto simp: run_smart_meter_content smart_meter_inserts_Cons
        intro: subset_mset.order_trans)
qed

lemma stored_after_delete:
  "Delete_from_smart_meter_data \<in> set ss \<Longrightarrow>
     mset (map smd_content (smart_meter_data (fold run ss d))) \<subseteq># mset (smart_meter_inserts ss)"
proof (induction ss arbitrary: d)
  case Nil
  then show ?case by simp
next
  case (Cons s ss)
  show ?case
  proof (cases "s = Delete_from_smart_meter_data")
    case True
    then show ?thesis
      using stored_among_inserts[of ss "run s d"]
      by (simp add: run_smart_meter_content smart_meter_inserts_Cons)
  next
    case False
    with Cons.prems have "Delete_from_smart_meter_data \<in> set ss" by simp
    from Cons.IH[OF this, of "run s d"]
    have "mset (map smd_content (smart_meter_data (fold run (s # ss) d))) \<subseteq>#
            mset (smart_meter_inserts ss)"
      by simp
    also have "mset (smart_meter_inserts ss) \<subseteq># mset (smart_meter_inserts (s # ss))"
      by (cases s) (simp_all add: smart_meter_inserts_Cons)
    finally show ?thesis .
  qed
qed

lemma stored_without_delete:
  "Delete_from_smart_meter_data \<notin> set ss \<Longrightarrow>
     map smd_content (smart_meter_data (fold run ss d)) =
       map smd_content (smart_meter_data d) @ smart_meter_inserts ss"
proof (induction ss arbitrary: d)
  case Nil
  show ?case by simp
next
  case (Cons s ss)
  then show ?case
    by (cases s) (simp_all add: run_smart_meter_content smart_meter_inserts_Cons)
qed

lemma stored_in_order:
  "map smd_content (smart_meter_data (loaded (loadCSVData pf src) d)) =
     smart_meter_inserts (loadCSVData pf src)"
proof -
  let ?rest = "Delete_from_energy_breakdown # Delete_from_metadata #
                 load_metadata pf (metadata_csv src) @
                 load_smart_meter pf (smart_meter_csv src) @
                 load_breakdown pf (breakdown_csv src)"
  have issued: "loadCSVData pf src = Delete_from_smart_meter_data # ?rest"
    by (simp add: loadCSVData_def)
  have "Delete_from_smart_meter_data \<notin> set ?rest"
    using load_metadata_on_metadata[of Delete_from_smart_meter_data pf "metadata_csv src"]
    by (auto simp: load_smart_meter_statements load_breakdown_statements split: option.splits)
  from stored_without_delete[OF this, of "run Delete_from_smart_meter_data d"]
  show ?thesis
    unfolding issued loaded_def
    by (simp add: run_smart_meter_content smart_meter_inserts_Cons)
qed

lemma mset_smart_meter_inserts:
  "mset (smart_meter_inserts ss) =
     image_mset (\<lambda>s. case s of Insert_smart_meter_data v \<Rightarrow> v | _ \<Rightarrow> undefined)
       (filter_mset (\<lambda>s. case s of Insert_smart_meter_data v \<Rightarrow> True | _ \<Rightarrow> False) (mset ss))"
  by (induction ss rule: smart_meter_inserts.induct) simp_all

lemma schedule_smart_meter_inserts:
  "schedule issued sched \<Longrightarrow> mset (smart_meter_inserts sched) = mset (smart_meter_inserts issued)"
  by (simp add: schedule_def mset_smart_meter_inserts)

lemma schedule_set: "schedule issued sched \<Longrightarrow> set sched = set issued"
  by (metis schedule_def set_mset_mset)

section \<open>The metadata load\<close>

lemma trim_Nil: "trim [] = []"
  by (simp add: trim_def)

lemma dropWhile_rev_dropWhile:
  "dropWhile P (rev (dropWhile P (rev (dropWhile P s)))) = rev (dropWhile P (rev (dropWhile P s)))"
proof (cases "dropWhile P (rev (dropWhile P s)) = []")
  case True
  show ?thesis unfolding True by simp
next
  case False
  let ?t = "dropWhile P s"
  let ?u = "dropWhile P (rev ?t)"
  from False have t: "?t \<noteq> []"
    by (metis rev.simps(1) dropWhile.simps(1))
  then have "\<not> P (hd ?t)" by (rule hd_dropWhile)
  obtain pre where "rev ?t = pre @ ?u"
    by (metis takeWhile_dropWhile_id)
  with False have "last ?u = last (rev ?t)" by (metis last_appendR)
  also have "\<dots> = hd ?t" using t by (simp add: last_rev)
  finally have "\<not> P (hd (rev ?u))"
    using False \<open>\<not> P (hd ?t)\<close> by (simp add: hd_rev)
  with False show ?thesis
    by (cases "rev ?u") auto
qed

lemma trim_idem: "trim (trim s) = trim s"
proof -
  let ?u = "dropWhile is_white_space (rev (dropWhile is_white_space s))"
  have "dropWhile is_white_space (rev ?u) = rev ?u"
    by (rule dropWhile_rev_dropWhile)
  then have "trim (rev ?u) = rev (dropWhile is_white_space ?u)"
    by (simp add: trim_def)
  also have "\<dots> = rev ?u"
    by simp
  finally show ?thesis by (simp add: trim_def)
qed

lemma run_metadata:
  "metadata (run s d) =
     (case s of
        Delete_from_metadata \<Rightarrow> []
      | Insert_or_replace_metadata r \<Rightarrow> filter (\<lambda>x. m_cpe x \<noteq> m_cpe r) (metadata d) @ [r]
      | _ \<Rightarrow> metadata d)"
  by (cases s)
     (simp_all add: run_def insert_or_replace_def insert_smart_meter_def insert_breakdown_def
        Let_def)

lemma fold_run_metadata_cong:
  "metadata d = metadata d' \<Longrightarrow> metadata (fold run ss d) = metadata (fold run ss d')"
proof (induction ss arbitrary: d d')
  case Nil
  then show ?case by simp
next
  case (Cons s ss)
  have "metadata (run s d) = metadata (run s d')"
    using Cons.prems by (simp add: run_metadata split: statement.splits)
  from Cons.IH[OF this] show ?case by simp
qed

lemma fold_run_metadata_filter:
  "metadata (fold run ss d) = metadata (fold run (filter on_metadata ss) d)"
proof (induction ss arbitrary: d)
  case Nil
  show ?case by simp
next
  case (Cons s ss)
  show ?case
  proof (cases "on_metadata s")
    case True
    with Cons[of "run s d"] show ?thesis by simp
  next
    case False
    then have "metadata (run s d) = metadata d"
      by (cases s) (simp_all add: run_metadata on_metadata_def)
    from fold_run_metadata_cong[OF this, of ss] False Cons[of d] show ?thesis
      by simp
  qed
qed

lemma schedule_metadata:
  assumes "schedule (loadCSVData pf src) sched"
  shows "metadata (loaded sched d) =
           metadata (fold run (load_metadata pf (metadata_csv src)) (run Delete_from_metadata d))"
proof -
  have "metadata (loaded sched d) = metadata (fold run (filter on_metadata sched) d)"
    unfolding loaded_def by (rule fold_run_metadata_filter)
  also have "filter on_metadata sched = Delete_from_metadata # load_metadata pf (metadata_csv src)"
    using assms by (simp add: schedule_def loadCSVData_on_metadata)
  finally show ?thesis by simp
qed

lemma run_metadata_insert:
  "fold run (metadata_insert pf row) d =
     (case row (str ''cpe'') of
        None \<Rightarrow> d
      | Some c \<Rightarrow>
          if c \<noteq> [] \<and> trim c \<noteq> [] then insert_or_replace (metadata_values pf row c) d else d)"
  by (simp add: metadata_insert_def run_def split: option.splits)

lemma insert_or_replace_keys:
  "m_cpe ` set (metadata (insert_or_replace r d)) = insert (m_cpe r) (m_cpe ` set (metadata d))"
  by (auto simp: insert_or_replace_def)

lemma insert_or_replace_distinct:
  "distinct (map m_cpe (metadata d)) \<Longrightarrow> distinct (map m_cpe (metadata (insert_or_replace r d)))"
  by (auto simp: insert_or_replace_def distinct_map_filter)

lemma metadata_insert_keys:
  "m_cpe ` set (metadata d) \<subseteq> m_cpe ` set (metadata (fold run (metadata_insert pf row) d))"
  by (auto simp: run_metadata_insert insert_or_replace_keys split: option.splits)

lemma metadata_inserts_keys:
  "m_cpe ` set (metadata d) \<subseteq>
     m_cpe ` set (metadata (fold run (concat (map (metadata_insert pf) rows)) d))"
proof (induction rows arbitrary: d)
  case Nil
  show ?case by simp
next
  case (Cons row rows)
  show ?case
    using metadata_insert_keys[of d pf row] Cons[of "fold run (metadata_insert pf row) d"]
    by simp
qed

lemma metadata_inserts_distinct:
  "distinct (map m_cpe (metadata d)) \<Longrightarrow>
     distinct (map m_cpe (metadata (fold run (concat (map (metadata_insert pf) rows)) d)))"
proof (induction rows arbitrary: d)
  case Nil
  then show ?case by simp
next
  case (Cons row rows)
  have "distinct (map m_cpe (metadata (fold run (metadata_insert pf row) d)))"
    using Cons.prems by (simp add: run_metadata_insert insert_or_replace_distinct split: option.splits)
  from Cons.IH[OF this] show ?case by simp
qed

lemma metadata_inserts_stored:
  "m \<in> set (metadata (fold run (concat (map (metadata_insert pf) rows)) d)) \<Longrightarrow>
     m \<in> set (metadata d) \<or>
     (\<exists>row\<in>set rows. \<exists>c. row (str ''cpe'') = Some c \<and> trim c \<noteq> [] \<and> m = metadata_values pf row c)"
proof (induction rows arbitrary: d)
  case Nil
  then show ?case by simp
next
  case (Cons row rows)
  from Cons.IH[of "fold run (metadata_insert pf row) d"] Cons.prems
  consider "m \<in> set (metadata (fold run (metadata_insert pf row) d))"
    | "\<exists>row\<in>set rows. \<exists>c. row (str ''cpe'') = Some c \<and> trim c \<noteq> [] \<and> m = metadata_values pf row c"
    by auto
  then show ?case
  proof cases
    case 1
    then have "m \<in> set (metadata d) \<or>
        (\<exists>c. row (str ''cpe'') = Some c \<and> trim c \<noteq> [] \<and> m = metadata_values pf row c)"
      by (auto simp: run_metadata_insert insert_or_replace_def split: option.splits if_splits)
    then show ?thesis by auto
  next
    case 2
    then show ?thesis by auto
  qed
qed

lemma metadata_inserts_present:
  "row \<in> set rows \<Longrightarrow> row (str ''cpe'') = Some c \<Longrightarrow> trim c \<noteq> [] \<Longrightarrow>
     trim c \<in> m_cpe ` set (metadata (fold run (concat (map (metadata_insert pf) rows)) d))"
proof (induction rows arbitrary: d)
  case Nil
  then show ?case by simp
next
  case (Cons r rows)
  show ?case
  proof (cases "row = r")
    case True
    from Cons.prems(3) have "c \<noteq> []" using trim_Nil by auto
    with True Cons.prems
    have "trim c \<in> m_cpe ` set (metadata (fold run (metadata_insert pf r) d))"
      by (simp add: run_metadata_insert insert_or_replace_keys metadata_values_def)
    then show ?thesis
      using metadata_inserts_keys[of "fold run (metadata_insert pf r) d" pf rows] by auto
  next
    case False
    with Cons.prems have "row \<in> set rows" by simp
    from Cons.IH[OF this Cons.prems(2,3)] show ?thesis by simp
  qed
qed

lemma loadCSVData_metadata_distinct:
  assumes "schedule (loadCSVData pf src) sched"
  shows "distinct (map m_cpe (metadata (loaded sched d)))"
proof -
  have "distinct (map m_cpe (metadata (run Delete_from_metadata d)))"
    by (simp add: run_metadata)
  then have "distinct (map m_cpe (metadata
      (fold run (load_metadata pf (metadata_csv src)) (run Delete_from_metadata d))))"
    by (cases "metadata_csv src")
       (simp_all add: load_metadata_def metadata_on_end_def metadata_inserts_distinct)
  then show ?thesis
    by (simp add: schedule_metadata[OF assms])
qed

section \<open>What a load leaves in the store\<close>

text \<open>
  Claim C3, as the code has it. The meter-reading load sends an insert for each of the
  first 10000 lines of the source that have a building code (a non-empty \<open>cpe\<close> cell), in
  the order of the source, for all of them when they are fewer, and for no other line: a
  source with more than 10000 such lines has exactly 10000 inserts. The lines after
  them, and the lines without a building code, are not ingested and raise no error. In
  whatever order the store runs the statements, the rows it keeps are among the rows of
  these inserts, at most 10000; where it runs them in the order in which they were
  issued, it keeps exactly these rows, in the order of the source.
\<close>

theorem smart_meter_cap:
  assumes "smart_meter_csv src = Some rows"
  shows "smart_meter_inserts (loadCSVData pf src) =
           map (smart_meter_values pf)
             (take 10000 (filter (\<lambda>row. truthy (row (str ''cpe''))) rows)) \<and>
         (10000 < length (filter (\<lambda>row. truthy (row (str ''cpe''))) rows) \<longrightarrow>
            length (smart_meter_inserts (loadCSVData pf src)) = 10000) \<and>
         (\<forall>sched. schedule (loadCSVData pf src) sched \<longrightarrow>
            mset (map smd_content (smart_meter_data (loaded sched d))) \<subseteq>#
              mset (smart_meter_inserts (loadCSVData pf src)) \<and>
            length (smart_meter_data (loaded sched d)) \<le> 10000) \<and>
         map smd_content (smart_meter_data (loaded (loadCSVData pf src) d)) =
           smart_meter_inserts (loadCSVData pf src)"
proof -
  let ?kept = "take 10000 (filter (\<lambda>row. truthy (row (str ''cpe''))) rows)"
  have issued: "smart_meter_inserts (loadCSVData pf src) = map (smart_meter_values pf) ?kept"
    using assms by (simp add: loadCSVData_smart_meter_inserts maxRecords_smart_meter_def)
  have any: "mset (map smd_content (smart_meter_data (loaded sched d))) \<subseteq>#
               mset (smart_meter_inserts (loadCSVData pf src)) \<and>
             length (smart_meter_data (loaded sched d)) \<le> 10000"
    if sched: "schedule (loadCSVData pf src) sched" for sched
  proof -
    have "Delete_from_smart_meter_data \<in> set sched"
      using schedule_set[OF sched] loadCSVData_delete by simp
    from stored_after_delete[OF this, of d]
    have sub: "mset (map smd_content (smart_meter_data (loaded sched d))) \<subseteq>#
                 mset (smart_meter_inserts (loadCSVData pf src))"
      by (simp add: loaded_def schedule_smart_meter_inserts[OF sched])
    then have "size (mset (map smd_content (smart_meter_data (loaded sched d)))) \<le>
                 size (mset (smart_meter_inserts (loadCSVData pf src)))"
      by (rule size_mset_mono)
    then have "length (smart_meter_data (loaded sched d)) \<le> length ?kept"
      by (simp add: issued)
    with sub show ?thesis by simp
  qed
  from issued any stored_in_order[of pf src d] show ?thesis
    by simp
qed

theorem smart_meter_cap_witness:
  "length (smart_meter_inserts
     (loadCSVData example_parseFloat
        (only_smart_meter
           (replicate 10001
              (example_reading (str ''B1'') (str ''2021-03-01T00:00:00'') (str ''5.0'')))))) =
     10000 \<and>
   length (smart_meter_data
     (loaded
        (loadCSVData example_parseFloat
           (only_smart_meter
              (replicate 10001
                 (example_reading (str ''B1'') (str ''2021-03-01T00:00:00'') (str ''5.0'')))))
        empty_db)) = 10000"
proof -
  let ?rows = "replicate 10001
                 (example_reading (str ''B1'') (str ''2021-03-01T00:00:00'') (str ''5.0''))"
  let ?issued = "loadCSVData example_parseFloat (only_smart_meter ?rows)"
  have rows: "smart_meter_csv (only_smart_meter ?rows) = Some ?rows"
    by (simp add: only_smart_meter_def)
  have many: "10000 < length (filter (\<lambda>row. truthy (row (str ''cpe''))) ?rows)"
    by (simp add: example_reading_def truthy_def str_def)
  from smart_meter_cap [OF rows, of example_parseFloat empty_db] many
  have n: "length (smart_meter_inserts ?issued) = 10000"
    and s: "map smd_content (smart_meter_data (loaded ?issued empty_db)) =
            smart_meter_inserts ?issued"
    by blast+
  have "length (smart_meter_data (loaded ?issued empty_db)) =
        length (map smd_content (smart_meter_data (loaded ?issued empty_db)))"
    by simp
  with n s show ?thesis by simp
qed

text \<open>
  The claim as the specification states it fails on a source of 10001 lines of which the
  first 10000 have no building code: one insert is sent and one row is stored, not 10000.
\<close>

theorem smart_meter_cap_counterexample:
  "10000 < length example_long_file \<and>
   length (smart_meter_inserts
     (loadCSVData example_parseFloat (only_smart_meter example_long_file))) = 1 \<and>
   length (smart_meter_data
     (loaded (loadCSVData example_parseFloat (only_smart_meter example_long_file))
        empty_db)) = 1"
proof -
  let ?issued = "loadCSVData example_parseFloat (only_smart_meter example_long_file)"
  have "filter (\<lambda>row. truthy (row (str ''cpe''))) example_long_file =
          [example_reading (str ''B1'') (str ''2021-03-02T00:00:00'') (str ''3.0'')]"
    by (simp add: example_long_file_def example_reading_def truthy_def str_def)
  then have n: "length (smart_meter_inserts ?issued) = 1"
    by (simp add: loadCSVData_smart_meter_inserts only_smart_meter_def maxRecords_smart_meter_def)
  have "length (smart_meter_data (loaded ?issued empty_db)) =
        length (map smd_content (smart_meter_data (loaded ?issued empty_db)))"
    by simp
  also have "\<dots> = 1"
    unfolding stored_in_order by (rule n)
  finally show ?thesis
    using n by (simp add: example_long_file_def)
qed

text \<open>
  Claim C4. The load tests the building code of a meter-reading line for being non-empty
  and does not trim it: for a line whose \<open>cpe\<close> cell is one space it sends an insert, and
  the row is stored with a building code that is empty after trimming.
\<close>

theorem whitespace_cpe_is_stored:
  "loadCSVData example_parseFloat
     (only_smart_meter [example_reading (str '' '') (str ''2021-03-01T00:00:00'') (str ''5.0'')]) =
     [Delete_from_smart_meter_data, Delete_from_energy_breakdown, Delete_from_metadata,
      Insert_smart_meter_data (Some (str '' ''), Some (str ''2021-03-01T00:00:00''), Some 5)] \<and>
   map smd_content (smart_meter_data
     (loaded
        (loadCSVData example_parseFloat
           (only_smart_meter
              [example_reading (str '' '') (str ''2021-03-01T00:00:00'') (str ''5.0'')]))
        empty_db)) =
     [(Some (str '' ''), Some (str ''2021-03-01T00:00:00''), Some 5)] \<and>
   trim (str '' '') = []"
  by (simp add: load_defs run_defs only_smart_meter_def empty_db_def example_reading_def
      example_parseFloat_def smd_content_def str_def)

text \<open>
  Claim C5. After a load of a metadata source, in whatever order the store has run the
  statements of the load, every stored building code is trimmed and not empty, and every
  stored row is that of a parsed line whose \<open>cpe\<close> cell is not empty after trimming: the
  other lines are left out. Every line whose \<open>cpe\<close> cell is not empty after trimming is
  inserted, whatever lines stand before it: its trimmed code is a key of the relation.
\<close>

theorem metadata_load_skips_empty_cpe:
  assumes "metadata_csv src = Some lines" and "schedule (loadCSVData pf src) sched"
  shows "(\<forall>m\<in>set (metadata (loaded sched d)).
            trim (m_cpe m) = m_cpe m \<and> m_cpe m \<noteq> [] \<and>
            (\<exists>row\<in>set (parsed (metadata_stream lines)). \<exists>c.
               row (str ''cpe'') = Some c \<and> trim c \<noteq> [] \<and> m = metadata_values pf row c)) \<and>
         (\<forall>row\<in>set (parsed (metadata_stream lines)). \<forall>c.
            row (str ''cpe'') = Some c \<and> trim c \<noteq> [] \<longrightarrow>
            trim c \<in> m_cpe ` set (metadata (loaded sched d)))"
proof -
  let ?rows = "parsed (metadata_stream lines)"
  let ?d0 = "run Delete_from_metadata d"
  have m: "metadata (loaded sched d) =
             metadata (fold run (concat (map (metadata_insert pf) ?rows)) ?d0)"
    using assms(1) schedule_metadata[OF assms(2), of d]
    by (simp add: load_metadata_def metadata_on_end_def)
  have empty: "metadata ?d0 = []"
    by (simp add: run_metadata)
  have stored: "trim (m_cpe m) = m_cpe m \<and> m_cpe m \<noteq> [] \<and>
            (\<exists>row\<in>set ?rows. \<exists>c.
               row (str ''cpe'') = Some c \<and> trim c \<noteq> [] \<and> m = metadata_values pf row c)"
    if "m \<in> set (metadata (loaded sched d))" for m
  proof -
    from that obtain row c where row: "row \<in> set ?rows" "row (str ''cpe'') = Some c"
      "trim c \<noteq> []" "m = metadata_values pf row c"
      unfolding m using metadata_inserts_stored[of m pf ?rows ?d0] empty
      by auto
    then have "m_cpe m = trim c"
      by (simp add: metadata_values_def)
    with row show ?thesis
      by (auto simp: trim_idem)
  qed
  have present: "trim c \<in> m_cpe ` set (metadata (loaded sched d))"
    if "row \<in> set ?rows" and "row (str ''cpe'') = Some c" and "trim c \<noteq> []" for row c
    unfolding m using that by (rule metadata_inserts_present)
  from stored present show ?thesis
    by blast
qed

theorem metadata_load_skips_empty_cpe_witness:
  "map m_cpe (metadata (loaded (loadCSVData example_parseFloat example_sources) empty_db)) =
     [str ''B1'', str ''B2''] \<and>
   length (parsed (metadata_stream (the (metadata_csv example_sources)))) = 3 \<and>
   str ''B2'' \<in> m_cpe ` set (metadata (loaded (loadCSVData example_parseFloat example_sources)
                                           empty_db))"
proof -
  have lines: "metadata_csv example_sources = Some (the (metadata_csv example_sources))"
    by (simp add: example_sources_def)
  have row: "parsed (metadata_stream (the (metadata_csv example_sources))) ! 2
               \<in> set (parsed (metadata_stream (the (metadata_csv example_sources))))"
    by (simp add: example_sources_def metadata_stream_Cons)
  have cpe: "(parsed (metadata_stream (the (metadata_csv example_sources))) ! 2) (str ''cpe'') =
               Some (str ''B2'') \<and> trim (str ''B2'') \<noteq> []"
    by (simp add: example_sources_def metadata_stream_Cons dataRow_def header_at_def
        trim_def strip_bom_def is_white_space_def str_def)
  from metadata_load_skips_empty_cpe [OF lines schedule_issued, of example_parseFloat empty_db]
    row cpe
  have "trim (str ''B2'') \<in>
          m_cpe ` set (metadata (loaded (loadCSVData example_parseFloat example_sources) empty_db))"
    by blast
  moreover have "trim (str ''B2'') = str ''B2''"
    by (simp add: trim_def is_white_space_def str_def)
  moreover have "map m_cpe (metadata (loaded (loadCSVData example_parseFloat example_sources)
      empty_db)) = [str ''B1'', str ''B2'']"
    by (simp add: example_db_loaded example_db_def)
  moreover have "length (parsed (metadata_stream (the (metadata_csv example_sources)))) = 3"
    by (simp add: example_sources_def metadata_stream_Cons)
  ultimately show ?thesis
    by simp
qed

section \<open>The breakdown lookup\<close>

lemma like_percent: "like [37] s"
  by (induction s) simp_all

lemma like_prefix:
  "37 \<notin> set p \<Longrightarrow> 95 \<notin> set p \<Longrightarrow> like (p @ [37]) t \<longleftrightarrow> begins_with_nocase t p"
proof (induction p arbitrary: t)
  case Nil
  then show ?case by (simp add: like_percent begins_with_nocase_def)
next
  case (Cons c p)
  then have IH: "like (p @ [37]) u \<longleftrightarrow> begins_with_nocase u p" for u
    by simp
  from Cons.prems have c: "c \<noteq> 37" "c \<noteq> 95" by auto
  show ?case
  proof (cases t)
    case Nil
    with c show ?thesis by (simp add: begins_with_nocase_def)
  next
    case (Cons x xs)
    with c IH[of xs] show ?thesis
      by (auto simp: begins_with_nocase_def)
  qed
qed

lemma count_list_insort_key: "count_list (insort_key f y xs) x = count_list (y # xs) x"
  by (induction xs) auto

lemma count_list_sort_key: "count_list (sort_key f xs) x = count_list xs x"
  by (induction xs) (auto simp: count_list_insort_key)

lemma sorted_take_map: "sorted (map f xs) \<Longrightarrow> sorted (map f (take n xs))"
  by (simp flip: take_map)

text \<open>
  Claim C7, as the code has it. The answer of GET /api/energy-breakdown has at most 24
  rows, in ascending order of their time; they are the first 24 (or all) of the selected
  rows of the relation in that order (followed by the other selected rows they make up
  the selected rows, each as often as it is selected, in ascending order). With a non-empty \<open>timestamp\<close> parameter the
  selected rows are those whose time matches the LIKE pattern made of the parameter and
  \<open>%\<close>; where the parameter has neither \<open>%\<close> nor \<open>_\<close> in it, these times begin with
  the parameter, up to the case of the letters A to Z. Without the parameter every row is
  selected.
\<close>

theorem breakdown_first_24:
  "\<exists>rows. breakdown_handler d q = \<lparr>status = 200, body = Rows rows\<rparr> \<and>
     length rows \<le> 24 \<and> sorted (map eb_timestamp rows) \<and>
     (\<exists>rest. (\<forall>r. count_list (rows @ rest) r =
                       count_list (filter (selected q) (energy_breakdown d)) r) \<and>
             sorted (map eb_timestamp (rows @ rest)) \<and>
             (rest \<noteq> [] \<longrightarrow> length rows = 24)) \<and>
     (\<forall>p. q_timestamp q = Some p \<and> p \<noteq> [] \<longrightarrow>
        (\<forall>r\<in>set rows. \<exists>t. eb_timestamp r = Some t \<and> like (p @ str ''%'') t \<and>
           (37 \<notin> set p \<and> 95 \<notin> set p \<longrightarrow> begins_with_nocase t p))) \<and>
     (\<not> truthy (q_timestamp q) \<longrightarrow> selected q = (\<lambda>r. True))"
proof -
  let ?pattern = "if truthy (q_timestamp q) then Some (template (q_timestamp q) @ str ''%'') else None"
  let ?cond = "\<lambda>r. case ?pattern of
                      None \<Rightarrow> True
                    | Some p \<Rightarrow> (case eb_timestamp r of None \<Rightarrow> False | Some t \<Rightarrow> like p t)"
  have cond: "?cond = selected q"
    by (auto simp: selected_def truthy_def template_def fun_eq_iff split: option.splits)
  let ?all = "sort_key eb_timestamp (filter (selected q) (energy_breakdown d))"
  let ?rows = "take 24 ?all"
  have rows: "breakdown_query d ?pattern = ?rows"
    unfolding breakdown_query_def order_by_def cond ..
  have sorted_all: "sorted (map eb_timestamp ?all)"
    by simp
  have 1: "length ?rows \<le> 24" by simp
  have 2: "sorted (map eb_timestamp ?rows)"
    using sorted_all by (rule sorted_take_map)
  have 3: "(\<forall>r. count_list (?rows @ drop 24 ?all) r =
                count_list (filter (selected q) (energy_breakdown d)) r) \<and>
           sorted (map eb_timestamp (?rows @ drop 24 ?all)) \<and>
           (drop 24 ?all \<noteq> [] \<longrightarrow> length ?rows = 24)"
    using sorted_all by (auto simp del: sorted_sort_key simp: count_list_sort_key)
  have 4: "\<exists>t. eb_timestamp r = Some t \<and> like (p @ str ''%'') t \<and>
             (37 \<notin> set p \<and> 95 \<notin> set p \<longrightarrow> begins_with_nocase t p)"
    if p: "q_timestamp q = Some p" "p \<noteq> []" and r: "r \<in> set ?rows" for p r
  proof -
    from r have "r \<in> set ?all" by (rule in_set_takeD)
    then have "selected q r" by simp
    with p obtain t where t: "eb_timestamp r = Some t" "like (p @ str ''%'') t"
      by (auto simp: selected_def split: option.splits)
    moreover have "begins_with_nocase t p" if "37 \<notin> set p" "95 \<notin> set p"
      using t(2) like_prefix[OF that, of t] by (simp add: str_def)
    ultimately show ?thesis by simp
  qed
  have 5: "selected q = (\<lambda>r. True)" if "\<not> truthy (q_timestamp q)"
    using that by (auto simp: selected_def truthy_def fun_eq_iff split: option.splits)
  have "breakdown_handler d q = \<lparr>status = 200, body = Rows ?rows\<rparr>"
    unfolding breakdown_handler_def rows ..
  with 1 2 3 4 5 show ?thesis
    by blast
qed

theorem breakdown_first_24_witness:
  "\<exists>rows. breakdown_handler example_db (no_params\<lparr>q_timestamp := Some (str ''2021-03'')\<rparr>) =
            \<lparr>status = 200, body = Rows rows\<rparr> \<and>
     rows \<noteq> [] \<and>
     (\<forall>r\<in>set rows. \<exists>t. eb_timestamp r = Some t \<and> begins_with_nocase t (str ''2021-03''))"
proof -
  let ?q = "no_params\<lparr>q_timestamp := Some (str ''2021-03'')\<rparr>"
  from breakdown_first_24 [of example_db ?q]
  obtain rows where rows: "breakdown_handler example_db ?q = \<lparr>status = 200, body = Rows rows\<rparr>"
    and all: "\<forall>p. q_timestamp ?q = Some p \<and> p \<noteq> [] \<longrightarrow>
        (\<forall>r\<in>set rows. \<exists>t. eb_timestamp r = Some t \<and> like (p @ str ''%'') t \<and>
           (37 \<notin> set p \<and> 95 \<notin> set p \<longrightarrow> begins_with_nocase t p))"
    by blast
  have "q_timestamp ?q = Some (str ''2021-03'') \<and> str ''2021-03'' \<noteq> [] \<and>
        37 \<notin> set (str ''2021-03'') \<and> 95 \<notin> set (str ''2021-03'')"
    by (simp add: str_def)
  with all have "\<forall>r\<in>set rows. \<exists>t. eb_timestamp r = Some t \<and> begins_with_nocase t (str ''2021-03'')"
    by blast
  moreover have "breakdown_handler example_db ?q =
      \<lparr>status = 200, body = Rows (energy_breakdown example_db)\<rparr>"
    by (simp add: breakdown_handler_def breakdown_query_def order_by_def example_db_def
        no_params_def truthy_def template_def str_def)
  with rows have "rows = energy_breakdown example_db" by simp
  then have "rows \<noteq> []" by (simp add: example_db_def)
  ultimately show ?thesis using rows by blast
qed

text \<open>
  The claim as the specification states it fails: with the parameter \<open>2021_03\<close>, and with
  the parameter \<open>2021-03-01t\<close>, the answer has the row of the time \<open>2021-03-01T00:00:00\<close>,
  which begins with neither.
\<close>

theorem breakdown_prefix_counterexample:
  "breakdown_handler example_db (no_params\<lparr>q_timestamp := Some (str ''2021_03'')\<rparr>) =
     \<lparr>status = 200, body = Rows (energy_breakdown example_db)\<rparr> \<and>
   breakdown_handler example_db (no_params\<lparr>q_timestamp := Some (str ''2021-03-01t'')\<rparr>) =
     \<lparr>status = 200, body = Rows (energy_breakdown example_db)\<rparr> \<and>
   map eb_timestamp (energy_breakdown example_db) = [Some (str ''2021-03-01T00:00:00'')] \<and>
   \<not> begins_with (str ''2021-03-01T00:00:00'') (str ''2021_03'') \<and>
   \<not> begins_with (str ''2021-03-01T00:00:00'') (str ''2021-03-01t'')"
  by (simp add: breakdown_handler_def breakdown_query_def order_by_def example_db_def
      no_params_def truthy_def template_def begins_with_def lower_def str_def)

section \<open>Missing parameters\<close>

lemma periods_differ:
  "str ''monthly'' \<noteq> str ''daily''" "str ''monthly'' \<noteq> str ''hourly''"
  "str ''daily'' \<noteq> str ''hourly''"
  by (simp_all add: str_def)

lemma sql_eq_null: "\<not> sql_eq a None"
  by (auto simp: sql_eq_def)

lemma energy_query_null: "energy_query fsum sf d k (c, None) = []"
  by (cases k) (simp_all add: energy_query_def sql_eq_null order_by_def)

text \<open>
  Claim C8, as the code has it. A request with one of the three periods is never
  rejected for a missing query parameter: the answer has status 200 and the handler runs
  the query of the period, with the building code and a second parameter. For
  \<open>monthly\<close> this is the year, NULL without one, and then the answer is empty. For
  \<open>daily\<close> it is the month when the request has a non-empty one, else, for a request with
  a year, the year followed by \<open>-01\<close>. For \<open>hourly\<close> it is the day when the request has a
  non-empty one, else, for a request with a year, the year followed by \<open>-01-01\<close>.
\<close>

theorem recognized_period_runs_query:
  assumes "period = str ''monthly'' \<or> period = str ''daily'' \<or> period = str ''hourly''"
  shows "\<exists>k p. energy_handler fsum sf d cpe period q =
            (\<lparr>status = 200, body = Rows (energy_query fsum sf d k (Some cpe, p))\<rparr>,
             [(k, Some cpe, p)]) \<and>
          (period = str ''monthly'' \<longrightarrow>
             k = Monthly \<and> p = q_year q \<and>
             (q_year q = None \<longrightarrow> energy_query fsum sf d k (Some cpe, p) = [])) \<and>
          (period = str ''daily'' \<longrightarrow>
             k = Daily \<and> (truthy (q_month q) \<longrightarrow> p = q_month q) \<and>
             (\<forall>y. \<not> truthy (q_month q) \<and> q_year q = Some y \<longrightarrow> p = Some (y @ str ''-01''))) \<and>
          (period = str ''hourly'' \<longrightarrow>
             k = Hourly \<and> (truthy (q_day q) \<longrightarrow> p = q_day q) \<and>
             (\<forall>y. \<not> truthy (q_day q) \<and> q_year q = Some y \<longrightarrow> p = Some (y @ str ''-01-01'')))"
proof -
  have or_else: "truthy a \<Longrightarrow> Some (or_else a b) = a" "\<not> truthy a \<Longrightarrow> or_else a b = b" for a b
    by (auto simp: or_else_def truthy_def split: option.splits)
  from assms consider (m) "period = str ''monthly''" | (d) "period = str ''daily''"
    | (h) "period = str ''hourly''"
    by blast
  then show ?thesis
  proof cases
    case m
    then show ?thesis
      using periods_differ energy_query_null[of fsum sf d Monthly "Some cpe"]
      by (simp add: energy_handler_def energy_switch_def)
  next
    case d
    then show ?thesis
      using periods_differ or_else[of "q_month q"]
      by (auto simp: energy_handler_def energy_switch_def template_def)
  next
    case h
    then show ?thesis
      using periods_differ or_else[of "q_day q"]
      by (auto simp: energy_handler_def energy_switch_def template_def)
  qed
qed

theorem recognized_period_runs_query_witness:
  "\<exists>k p. energy_handler double_sum example_strftime example_db (str ''B1'') (str ''daily'')
            (no_params\<lparr>q_year := Some (str ''2021'')\<rparr>) =
            (\<lparr>status = 200,
              body = Rows (energy_query double_sum example_strftime example_db k
                            (Some (str ''B1''), p))\<rparr>,
             [(k, Some (str ''B1''), p)]) \<and>
          k = Daily \<and> p = Some (str ''2021-01'')"
proof -
  let ?q = "no_params\<lparr>q_year := Some (str ''2021'')\<rparr>"
  have q: "\<not> truthy (q_month ?q) \<and> q_year ?q = Some (str ''2021'')"
    by (simp add: no_params_def truthy_def)
  from recognized_period_runs_query [of "str ''daily''" double_sum example_strftime example_db
      "str ''B1''" ?q]
  obtain k p where kp: "energy_handler double_sum example_strftime example_db (str ''B1'') (str ''daily'') ?q =
            (\<lparr>status = 200,
              body = Rows (energy_query double_sum example_strftime example_db k
                            (Some (str ''B1''), p))\<rparr>,
             [(k, Some (str ''B1''), p)])" "k = Daily"
     "\<forall>y. \<not> truthy (q_month ?q) \<and> q_year ?q = Some y \<longrightarrow> p = Some (y @ str ''-01'')"
    by blast
  from kp(3) q have "p = Some (str ''2021'' @ str ''-01'')"
    by blast
  then have "p = Some (str ''2021-01'')"
    by (simp add: str_def)
  with kp(1,2) show ?thesis by blast
qed

text \<open>
  The claim as the specification states it fails: a \<open>daily\<close> request without parameters is
  answered with status 200, after a query with the month \<open>undefined-01\<close>; a \<open>monthly\<close>
  request without parameters is answered with status 200, after a query with NULL.
\<close>

theorem missing_parameters_counterexample:
  "energy_handler double_sum example_strftime example_db (str ''B1'') (str ''daily'') no_params =
     (\<lparr>status = 200, body = Rows []\<rparr>, [(Daily, Some (str ''B1''), Some (str ''undefined-01''))]) \<and>
   energy_handler double_sum example_strftime example_db (str ''B1'') (str ''monthly'') no_params =
     (\<lparr>status = 200, body = Rows []\<rparr>, [(Monthly, Some (str ''B1''), None)])"
  by (simp add: energy_handler_def energy_switch_def energy_query_def order_by_def sql_eq_def
      or_else_def truthy_def template_def strftime_def example_strftime_def example_db_def
      no_params_def str_def)

section \<open>The aggregation queries do not read the surrogate ids\<close>

lemma group_by_map:
  "group_by f (map h xs) = map (\<lambda>kg. (fst kg, map h (snd kg))) (group_by (\<lambda>x. f (h x)) xs)"
proof (induction xs rule: length_induct)
  case (1 xs)
  show ?case
  proof (cases xs)
    case Nil
    then show ?thesis by simp
  next
    case (Cons x ys)
    let ?rest = "filter (\<lambda>y. f (h y) \<noteq> f (h x)) ys"
    have "length ?rest < length xs"
      using Cons by (simp add: le_imp_less_Suc)
    with 1 have "group_by f (map h ?rest) =
        map (\<lambda>kg. (fst kg, map h (snd kg))) (group_by (\<lambda>x. f (h x)) ?rest)"
      by blast
    with Cons show ?thesis
      by (simp add: filter_map o_def)
  qed
qed

lemma left_join_map:
  "left_join on xs (map h ys) =
     map (\<lambda>j. (fst j, map_option h (snd j))) (left_join (\<lambda>x y. on x (h y)) xs ys)"
proof -
  have row: "(case filter (on x) (map h ys) of [] \<Rightarrow> [(x, None)]
              | m # ms \<Rightarrow> map (\<lambda>y. (x, Some y)) (m # ms)) =
             map (\<lambda>j. (fst j, map_option h (snd j)))
               (case filter (\<lambda>y. on x (h y)) ys of [] \<Rightarrow> [(x, None)]
                | m # ms \<Rightarrow> map (\<lambda>y. (x, Some y)) (m # ms))" for x
    by (cases "filter (\<lambda>y. on x (h y)) ys") (simp_all add: filter_map o_def)
  show ?thesis
    unfolding left_join_def map_concat map_map o_def row ..
qed

lemma grouped_content:
  "map (\<lambda>kg. mk (fst kg) (map c (snd kg))) (group_by (\<lambda>r. key (c r)) (filter (\<lambda>r. P (c r)) xs)) =
   map (\<lambda>kg. mk (fst kg) (snd kg)) (group_by key (filter P (map c xs)))"
  by (simp add: filter_map group_by_map o_def)

lemma grouped_cong:
  assumes "map c xs = map c ys"
  shows "map (\<lambda>kg. mk (fst kg) (map c (snd kg)))
           (group_by (\<lambda>r. key (c r)) (filter (\<lambda>r. P (c r)) xs)) =
         map (\<lambda>kg. mk (fst kg) (map c (snd kg)))
           (group_by (\<lambda>r. key (c r)) (filter (\<lambda>r. P (c r)) ys))"
  unfolding grouped_content assms ..

lemma energy_query_cong:
  assumes "map smd_content (smart_meter_data d1) = map smd_content (smart_meter_data d2)"
  shows "energy_query fsum sf d1 k ps = energy_query fsum sf d2 k ps"
proof -
  obtain wf' lf gf where k: "formats k = (wf', lf, gf)"
    by (metis prod_cases3)
  let ?mk = "\<lambda>(key :: ustring option) g.
               \<lparr>bucket = (case g of [] \<Rightarrow> None | v # _ \<Rightarrow> strftime sf lf (fst (snd v))),
                total_energy = sum_agg fsum (map (\<lambda>v. snd (snd v)) g)\<rparr>"
  let ?key = "\<lambda>v :: ustring option \<times> ustring option \<times> real option. strftime sf gf (fst (snd v))"
  let ?P = "\<lambda>v :: ustring option \<times> ustring option \<times> real option.
              sql_eq (fst v) (fst ps) \<and> sql_eq (strftime sf wf' (fst (snd v))) (snd ps)"
  have label: "(case g of [] \<Rightarrow> None | r # _ \<Rightarrow> strftime sf lf (smd_timestamp r)) =
               (case map smd_content g of [] \<Rightarrow> None | v # _ \<Rightarrow> strftime sf lf (fst (snd v)))" for g
    by (cases g) (simp_all add: smd_content_def)
  have q: "energy_query fsum sf d k ps =
      order_by bucket
        (map (\<lambda>kg. ?mk (fst kg) (map smd_content (snd kg)))
           (group_by (\<lambda>r. ?key (smd_content r))
              (filter (\<lambda>r. ?P (smd_content r)) (smart_meter_data d))))" for d
    unfolding energy_query_def k prod.case label
    by (simp add: smd_content_def case_prod_unfold o_def)
  show ?thesis
    unfolding q using grouped_cong[OF assms, where mk = ?mk and key = ?key and P = ?P]
    by simp
qed

lemma joined_content:
  "map (\<lambda>j. (fst j, map_option smd_content (snd j)))
     (left_join (\<lambda>m smd. sql_eq (Some (m_cpe m)) (smd_cpe smd)) ms xs) =
   left_join (\<lambda>m v. sql_eq (Some (m_cpe m)) (fst v)) ms (map smd_content xs)"
  unfolding left_join_map by (simp add: smd_content_def)

lemma buildings_query_cong:
  assumes "metadata d1 = metadata d2"
    and "map smd_content (smart_meter_data d1) = map smd_content (smart_meter_data d2)"
  shows "buildings_query fsum d1 = buildings_query fsum d2"
proof -
  let ?C = "\<lambda>j :: metadata_row \<times> smart_meter_row option. (fst j, map_option smd_content (snd j))"
  let ?J = "\<lambda>d. left_join (\<lambda>m smd. sql_eq (Some (m_cpe m)) (smd_cpe smd))
                  (metadata d) (smart_meter_data d)"
  let ?mk = "\<lambda>(m :: metadata_row) (g :: (metadata_row \<times> (ustring option \<times> ustring option \<times> real option) option) list).
               \<lparr>m_cpe = m_cpe m, m_lat = m_lat m, m_lon = m_lon m,
                m_totalarea = m_totalarea m, m_name = m_name m,
                m_fulladdress = m_fulladdress m,
                annual_energy =
                  coalesce (sum_agg fsum (map (\<lambda>j. Option.bind (snd j) (\<lambda>v. snd (snd v))) g)) 0\<rparr>"
  have energy: "Option.bind (snd j) smd_active_energy =
                Option.bind (map_option smd_content (snd j)) (\<lambda>v. snd (snd v))"
    for j :: "metadata_row \<times> smart_meter_row option"
    by (cases "snd j") (simp_all add: smd_content_def)
  have q: "buildings_query fsum d =
      order_by_desc annual_energy
        (map (\<lambda>kg. ?mk (fst kg) (map ?C (snd kg)))
           (group_by (\<lambda>j. fst (?C j)) (filter (\<lambda>j. (\<lambda>_. True) (?C j)) (?J d))))" for d
    unfolding buildings_query_def energy
    by (simp add: case_prod_unfold o_def)
  have "map ?C (?J d1) = map ?C (?J d2)"
    unfolding joined_content assms ..
  from grouped_cong[OF this, where mk = ?mk and key = fst and P = "\<lambda>_. True"]
  show ?thesis
    unfolding q by simp
qed

lemma buildings_energy_query_cong:
  assumes "metadata d1 = metadata d2"
    and "map smd_content (smart_meter_data d1) = map smd_content (smart_meter_data d2)"
  shows "buildings_energy_query fsum sf d1 y = buildings_energy_query fsum sf d2 y"
proof -
  let ?C = "\<lambda>j :: metadata_row \<times> smart_meter_row option. (fst j, map_option smd_content (snd j))"
  let ?J = "\<lambda>d. left_join (\<lambda>m smd. sql_eq (Some (m_cpe m)) (smd_cpe smd))
                  (metadata d) (smart_meter_data d)"
  let ?mk = "\<lambda>(key :: ustring \<times> ustring option \<times> real option \<times> real option \<times> real option)
              (g :: (metadata_row \<times> (ustring option \<times> ustring option \<times> real option) option) list).
               (case key of (cpe, name, lat, lon, totalarea) \<Rightarrow>
                  \<lparr>be_cpe = cpe, be_name = name, be_lat = lat, be_lon = lon,
                   be_totalarea = totalarea,
                   be_annual_energy =
                     sum_agg fsum (map (\<lambda>j. Option.bind (snd j) (\<lambda>v. snd (snd v))) g)\<rparr>)"
  let ?key = "\<lambda>j :: metadata_row \<times> (ustring option \<times> ustring option \<times> real option) option.
                (m_cpe (fst j), m_name (fst j), m_lat (fst j), m_lon (fst j), m_totalarea (fst j))"
  let ?P = "\<lambda>j :: metadata_row \<times> (ustring option \<times> ustring option \<times> real option) option.
              sql_eq (strftime sf (str ''%Y'') (Option.bind (snd j) (\<lambda>v. fst (snd v)))) (Some y)"
  have energy: "Option.bind (snd j) smd_active_energy =
                Option.bind (map_option smd_content (snd j)) (\<lambda>v. snd (snd v))"
    and time: "Option.bind (snd j) smd_timestamp =
                Option.bind (map_option smd_content (snd j)) (\<lambda>v. fst (snd v))"
    for j :: "metadata_row \<times> smart_meter_row option"
    by (cases "snd j"; simp add: smd_content_def)+
  have q: "buildings_energy_query fsum sf d y =
      order_by_desc be_annual_energy
        (map (\<lambda>kg. ?mk (fst kg) (map ?C (snd kg)))
           (group_by (\<lambda>j. ?key (?C j)) (filter (\<lambda>j. ?P (?C j)) (?J d))))" for d
    unfolding buildings_energy_query_def energy time
    by (simp add: case_prod_unfold o_def)
  have "map ?C (?J d1) = map ?C (?J d2)"
    unfolding joined_content assms ..
  from grouped_cong[OF this, where mk = ?mk and key = ?key and P = ?P]
  show ?thesis
    unfolding q by simp
qed

section \<open>Loading twice\<close>

text \<open>
  Where the store runs the statements of each load in the order in which they were
  issued, a second load of the same files leaves the answers of the three aggregation
  routes as they were after the first.
\<close>

lemma reload_in_order:
  "buildings_handler fsum (loaded (loadCSVData pf src) (loaded (loadCSVData pf src) d)) =
     buildings_handler fsum (loaded (loadCSVData pf src) d) \<and>
   energy_handler fsum sf (loaded (loadCSVData pf src) (loaded (loadCSVData pf src) d))
       cpe period q =
     energy_handler fsum sf (loaded (loadCSVData pf src) d) cpe period q \<and>
   buildings_energy_handler fsum sf (loaded (loadCSVData pf src) (loaded (loadCSVData pf src) d)) q =
     buildings_energy_handler fsum sf (loaded (loadCSVData pf src) d) q"
proof -
  let ?d1 = "loaded (loadCSVData pf src) d"
  let ?d2 = "loaded (loadCSVData pf src) ?d1"
  have "metadata (run Delete_from_metadata ?d1) = metadata (run Delete_from_metadata d)"
    by (simp add: run_metadata)
  then have m: "metadata ?d2 = metadata ?d1"
    unfolding schedule_metadata[OF schedule_issued] by (rule fold_run_metadata_cong)
  have s: "map smd_content (smart_meter_data ?d2) = map smd_content (smart_meter_data ?d1)"
    by (simp add: stored_in_order)
  have 1: "buildings_handler fsum ?d2 = buildings_handler fsum ?d1"
    by (simp add: buildings_handler_def buildings_query_cong[OF m s])
  have 2: "energy_handler fsum sf ?d2 cpe period q = energy_handler fsum sf ?d1 cpe period q"
    by (simp add: energy_handler_def energy_query_cong[OF s] split: option.splits prod.splits)
  have 3: "buildings_energy_handler fsum sf ?d2 q = buildings_energy_handler fsum sf ?d1 q"
    by (simp add: buildings_energy_handler_def buildings_energy_query_cong[OF m s])
  from 1 2 3 show ?thesis by simp
qed

text \<open>
  Claim C9. The deletes are not awaited: in a second load of the example files in which
  the store runs the delete of the meter readings after the inserts of that load, the
  readings are lost, and GET /api/buildings gives the building B1 the annual energy 0
  where it gave 8 after the first load.
\<close>

theorem reload_with_late_delete:
  "schedule (loadCSVData example_parseFloat example_sources) example_late_delete \<and>
   loaded (loadCSVData example_parseFloat example_sources) empty_db = example_db \<and>
   map (\<lambda>b. (m_cpe b, annual_energy b)) (buildings_query double_sum example_db) =
     [(str ''B1'', 8), (str ''B2'', 0)] \<and>
   smart_meter_data (loaded example_late_delete example_db) = [] \<and>
   map (\<lambda>b. (m_cpe b, annual_energy b))
     (buildings_query double_sum (loaded example_late_delete example_db)) =
     [(str ''B1'', 0), (str ''B2'', 0)]"
proof -
  have late: "example_late_delete =
     [Delete_from_energy_breakdown, Delete_from_metadata,
      Insert_or_replace_metadata
        \<lparr>m_cpe = str ''B1'', m_lat = Some 40, m_lon = None, m_totalarea = Some 1000,
         m_name = Some (str ''A''), m_fulladdress = Some (str ''1 Main St'')\<rparr>,
      Insert_or_replace_metadata
        \<lparr>m_cpe = str ''B2'', m_lat = Some 41, m_lon = None, m_totalarea = Some 1000,
         m_name = Some (str ''B''), m_fulladdress = Some (str ''2 Main St'')\<rparr>,
      Insert_smart_meter_data
        (Some (str ''B1''), Some (str ''2021-03-01T00:00:00''), Some 5),
      Insert_smart_meter_data
        (Some (str ''B1''), Some (str ''2021-03-02T00:00:00''), Some 3),
      Insert_energy_breakdown
        (Some (str ''2021-03-01T00:00:00''), no_values\<lparr>renewable := Some 5\<rparr>),
      Delete_from_smart_meter_data]"
    by (simp add: example_late_delete_def example_statements)
  have 1: "schedule (loadCSVData example_parseFloat example_sources) example_late_delete"
    unfolding late example_statements by (simp add: schedule_def on_metadata_def)
  have db: "metadata (loaded example_late_delete example_db) =
              [\<lparr>m_cpe = str ''B1'', m_lat = Some 40, m_lon = None, m_totalarea = Some 1000,
                m_name = Some (str ''A''), m_fulladdress = Some (str ''1 Main St'')\<rparr>,
               \<lparr>m_cpe = str ''B2'', m_lat = Some 41, m_lon = None, m_totalarea = Some 1000,
                m_name = Some (str ''B''), m_fulladdress = Some (str ''2 Main St'')\<rparr>] \<and>
            smart_meter_data (loaded example_late_delete example_db) = []"
    unfolding late by (simp add: run_defs example_db_def str_def)
  have before: "map (\<lambda>b. (m_cpe b, annual_energy b)) (buildings_query double_sum example_db) =
      [(str ''B1'', 8), (str ''B2'', 0)]"
    by (simp add: buildings_query_def left_join_def sql_eq_def sum_agg_def List.map_filter_def
        coalesce_def order_by_desc_def double_sum_5_3 example_db_def str_def)
  have after: "map (\<lambda>b. (m_cpe b, annual_energy b))
      (buildings_query double_sum (loaded example_late_delete example_db)) =
      [(str ''B1'', 0), (str ''B2'', 0)]"
    by (simp add: buildings_query_def db left_join_def sql_eq_def sum_agg_def List.map_filter_def
        coalesce_def order_by_desc_def str_def)
  from 1 example_db_loaded before db after show ?thesis
    by simp
qed

end
